theory Spec2Isabelle
  imports Complex_Main
begin

section \<open>Python values and the interpreter's built-ins\<close>

text \<open>
  The agent is Python. A text is a \<open>string\<close> with one \<open>char\<close> per code point (code
  points below 256), an \<open>int\<close> is unbounded, and a raised exception is the \<open>Inl\<close> of
  a sum. Only the exception classes the modelled code can raise are listed;
  \<open>JSONDecodeError\<close> is a subclass of \<open>ValueError\<close> in Python.
\<close>

datatype error =
    OllamaError
  | ValueError
  | JSONDecodeError
  | TypeError
  | OverflowError
  | KeyError
  | AttributeError
  | URLError
  | RuntimeError

definition is_ValueError :: "error \<Rightarrow> bool" where
  "is_ValueError e = (e = ValueError \<or> e = JSONDecodeError)"

text \<open>
  A float is the real number it denotes, or one of the three special values that
  \<open>json.loads\<close> also produces (\<open>NaN\<close>, \<open>Infinity\<close>, \<open>-Infinity\<close>, and literals out of
  range such as \<open>1e999\<close>). \<open>Finite 0\<close> stands for both zeros.
\<close>

datatype pyfloat = Finite real | NaN | PosInf | NegInf

text \<open>
  What \<open>json.loads\<close> returns. A dict is the association list of its items in insertion
  order; its keys are distinct, and a lookup is \<open>map_of\<close>.
\<close>

datatype json =
    JNull
  | JBool bool
  | JInt int
  | JFloat pyfloat
  | JStr string
  | JList "json list"
  | JObj "(string \<times> json) list"

text \<open>
  Three built-ins are parameters of the model, so that every theorem holds for whatever
  the interpreter does there:
  \<^item> \<open>int_of_str\<close>: \<open>int(s)\<close> on a string, \<open>None\<close> when it raises \<open>ValueError\<close>;
  \<^item> \<open>repr_other\<close>: the text an f-string interpolates for a float, a list or a dict;
  \<^item> \<open>loads\<close>: \<open>json.loads\<close>, \<open>None\<close> when it raises \<open>JSONDecodeError\<close>.
\<close>

record py_builtins =
  int_of_str :: "string \<Rightarrow> int option"
  repr_other :: "json \<Rightarrow> string"
  loads :: "string \<Rightarrow> json option"

definition bind_err :: "error + 'a \<Rightarrow> ('a \<Rightarrow> error + 'b) \<Rightarrow> error + 'b" where
  "bind_err m f = (case m of Inl e \<Rightarrow> Inl e | Inr x \<Rightarrow> f x)"

text \<open>Truth value testing: \<open>if v:\<close>.\<close>

fun truthy :: "json \<Rightarrow> bool" where
  "truthy JNull = False"
| "truthy (JBool b) = b"
| "truthy (JInt n) = (n \<noteq> 0)"
| "truthy (JFloat f) = (f \<noteq> Finite 0)"
| "truthy (JStr s) = (s \<noteq> [])"
| "truthy (JList xs) = (xs \<noteq> [])"
| "truthy (JObj kvs) = (kvs \<noteq> [])"

text \<open>\<open>d.get(k)\<close> and \<open>d.get(k, default)\<close> on a dict.\<close>

definition dict_get :: "(string \<times> json) list \<Rightarrow> string \<Rightarrow> json \<Rightarrow> json" where
  "dict_get d k dflt = (case map_of d k of None \<Rightarrow> dflt | Some v \<Rightarrow> v)"

text \<open>\<open>int(v)\<close>: a float is truncated towards zero.\<close>

definition trunc :: "real \<Rightarrow> int" where
  "trunc r = (if 0 \<le> r then \<lfloor>r\<rfloor> else \<lceil>r\<rceil>)"

fun py_int :: "py_builtins \<Rightarrow> json \<Rightarrow> error + int" where
  "py_int py JNull = Inl TypeError"
| "py_int py (JBool b) = Inr (if b then 1 else 0)"
| "py_int py (JInt n) = Inr n"
| "py_int py (JFloat (Finite r)) = Inr (trunc r)"
| "py_int py (JFloat NaN) = Inl ValueError"
| "py_int py (JFloat PosInf) = Inl OverflowError"
| "py_int py (JFloat NegInf) = Inl OverflowError"
| "py_int py (JStr s) = (case int_of_str py s of None \<Rightarrow> Inl ValueError | Some n \<Rightarrow> Inr n)"
| "py_int py (JList xs) = Inl TypeError"
| "py_int py (JObj kvs) = Inl TypeError"

text \<open>\<open>str(n)\<close> for an integer: decimal digits, with a minus sign when negative.\<close>

definition digit_char :: "nat \<Rightarrow> char" where
  "digit_char d = char_of (48 + d)"

fun str_nat :: "nat \<Rightarrow> string" where
  "str_nat n = (if n < 10 then [digit_char n] else str_nat (n div 10) @ [digit_char (n mod 10)])"

declare str_nat.simps [simp del]

definition str_int :: "int \<Rightarrow> string" where
  "str_int i = (if i < 0 then CHR ''-'' # str_nat (nat (- i)) else str_nat (nat i))"

text \<open>The text \<open>f"{v}"\<close> interpolates.\<close>

fun py_format :: "py_builtins \<Rightarrow> json \<Rightarrow> string" where
  "py_format py (JStr s) = s"
| "py_format py (JInt n) = str_int n"
| "py_format py (JBool b) = (if b then ''True'' else ''False'')"
| "py_format py JNull = ''None''"
| "py_format py v = repr_other py v"

section \<open>\<^verbatim>\<open>models.py\<close>\<close>

record NodeSpec =
  cores :: int
  memory_mb :: int
  disk_size :: string

text \<open>
  Python does not check a dataclass's annotations: \<open>name\<close>, \<open>cni_plugin\<close> and
  \<open>k8s_version_minor\<close> hold whatever value the resolver stores, and \<open>addons\<close> a list of
  such values.
\<close>

record ClusterSpec =
  name :: json
  vm_name_prefix :: string
  control_plane_count :: int
  worker_count :: int
  control_plane_spec :: NodeSpec
  worker_spec :: NodeSpec
  k8s_version_minor :: json
  k8s_version_full :: string
  pod_network_cidr :: string
  cni_plugin :: json
  ip_start :: int
  ip_prefix :: string
  ip_gateway :: string
  dns_server :: string
  network_bridge :: string
  target_node :: string
  template_id :: int
  storage :: string
  addons :: "json list"
  ssh_user :: string
  ssh_password :: string

text \<open>\<open>ClusterSpec()\<close>: the dataclass's defaults.\<close>

definition default_spec :: ClusterSpec where
  "default_spec =
     \<lparr> name = JStr ''k8s-cluster'',
       vm_name_prefix = ''k8s-node'',
       control_plane_count = 1,
       worker_count = 2,
       control_plane_spec = \<lparr> cores = 2, memory_mb = 4096, disk_size = ''20G'' \<rparr>,
       worker_spec = \<lparr> cores = 2, memory_mb = 2048, disk_size = ''20G'' \<rparr>,
       k8s_version_minor = JStr ''1.31'',
       k8s_version_full = ''1.31.4-1.1'',
       pod_network_cidr = ''10.244.0.0/16'',
       cni_plugin = JStr ''flannel'',
       ip_start = 201,
       ip_prefix = ''10.40.19.'',
       ip_gateway = ''10.40.19.254'',
       dns_server = ''10.40.2.1'',
       network_bridge = ''vmbr0'',
       target_node = ''pve1'',
       template_id = 990,
       storage = ''local-lvm'',
       addons = [],
       ssh_user = ''ubuntu'',
       ssh_password = ''ubuntu'' \<rparr>"

definition total_nodes :: "ClusterSpec \<Rightarrow> int" where
  "total_nodes s = control_plane_count s + worker_count s"

text \<open>\<open>range(n)\<close> is empty for a negative \<open>n\<close>.\<close>

definition py_range :: "int \<Rightarrow> int list" where
  "py_range n = map int [0 ..< nat n]"

definition control_plane_ips :: "ClusterSpec \<Rightarrow> string list" where
  "control_plane_ips s =
     map (\<lambda>i. ip_prefix s @ str_int (ip_start s + i)) (py_range (control_plane_count s))"

definition worker_ips :: "ClusterSpec \<Rightarrow> string list" where
  "worker_ips s =
     (let offset = control_plane_count s
      in map (\<lambda>i. ip_prefix s @ str_int (ip_start s + offset + i)) (py_range (worker_count s)))"

definition all_ips :: "ClusterSpec \<Rightarrow> string list" where
  "all_ips s = control_plane_ips s @ worker_ips s"

section \<open>\<^verbatim>\<open>intent_parser_llm.py\<close>: from the parsed reply to a ClusterSpec\<close>

text \<open>\<open>list(v)\<close>: a string gives its characters, a dict its keys.\<close>

fun py_list :: "json \<Rightarrow> error + json list" where
  "py_list (JList xs) = Inr xs"
| "py_list (JStr s) = Inr (map (\<lambda>c. JStr [c]) s)"
| "py_list (JObj kvs) = Inr (map (\<lambda>kv. JStr (fst kv)) kvs)"
| "py_list v = Inl TypeError"

text \<open>A list or a dict is unhashable: using one as a dict key raises \<open>TypeError\<close>.\<close>

fun hashable :: "json \<Rightarrow> bool" where
  "hashable (JList xs) = False"
| "hashable (JObj kvs) = False"
| "hashable v = True"

definition version_map :: "(string \<times> string) list" where
  "version_map =
     [(''1.31'', ''1.31.4-1.1''),
      (''1.30'', ''1.30.8-1.1''),
      (''1.29'', ''1.29.12-1.1''),
      (''1.28'', ''1.28.15-1.1'')]"

text \<open>
  \<open>version_map.get(minor, f"{minor}.0-1.1")\<close>: the keys of the table are strings, so a
  value of another type finds none of them.
\<close>

definition version_map_get :: "py_builtins \<Rightarrow> json \<Rightarrow> error + string" where
  "version_map_get py minor =
     (let dflt = py_format py minor @ ''.0-1.1''
      in if \<not> hashable minor then Inl TypeError
         else (case minor of
                 JStr s \<Rightarrow> (case map_of version_map s of None \<Rightarrow> Inr dflt | Some full \<Rightarrow> Inr full)
               | _ \<Rightarrow> Inr dflt))"

text \<open>Block 1 of \<open>_json_to_spec\<close>: the name.\<close>

definition set_name :: "py_builtins \<Rightarrow> (string \<times> json) list \<Rightarrow> ClusterSpec \<Rightarrow> ClusterSpec" where
  "set_name py d spec =
     (if truthy (dict_get d ''name'' JNull)
      then (let n = dict_get d ''name'' JNull
            in spec\<lparr> name := n, vm_name_prefix := py_format py n @ ''-node'' \<rparr>)
      else spec)"

text \<open>Block 5 (the second so numbered): the CNI plugin.\<close>

definition set_cni :: "(string \<times> json) list \<Rightarrow> ClusterSpec \<Rightarrow> ClusterSpec" where
  "set_cni d spec =
     (if truthy (dict_get d ''cni_plugin'' JNull)
      then (let spec1 = spec\<lparr> cni_plugin := dict_get d ''cni_plugin'' JNull \<rparr>
            in if cni_plugin spec1 = JStr ''calico''
               then spec1\<lparr> pod_network_cidr := ''192.168.0.0/16'' \<rparr>
               else spec1)
      else spec)"

text \<open>Block 6: the Kubernetes version.\<close>

definition set_k8s_version ::
  "py_builtins \<Rightarrow> (string \<times> json) list \<Rightarrow> ClusterSpec \<Rightarrow> error + ClusterSpec" where
  "set_k8s_version py d spec =
     (if truthy (dict_get d ''k8s_version'' JNull)
      then (let spec1 = spec\<lparr> k8s_version_minor := dict_get d ''k8s_version'' JNull \<rparr>
            in bind_err (version_map_get py (k8s_version_minor spec1))
                 (\<lambda>full. Inr (spec1\<lparr> k8s_version_full := full \<rparr>)))
      else Inr spec)"

text \<open>Block 7: the add-ons.\<close>

definition set_addons :: "(string \<times> json) list \<Rightarrow> ClusterSpec \<Rightarrow> error + ClusterSpec" where
  "set_addons d spec =
     (if truthy (dict_get d ''addons'' JNull)
      then bind_err (py_list (dict_get d ''addons'' JNull)) (\<lambda>xs. Inr (spec\<lparr> addons := xs \<rparr>))
      else Inr spec)"

text \<open>
  \<open>_json_to_spec\<close>. The statements run in the source's order, so the first one that
  raises decides the exception. A value that is not a dict has no \<open>get\<close>.
\<close>

definition json_to_spec :: "py_builtins \<Rightarrow> json \<Rightarrow> error + ClusterSpec" where
  "json_to_spec py data =
     (case data of
        JObj d \<Rightarrow>
          (let spec = set_name py d default_spec
           in bind_err (py_int py (dict_get d ''worker_count'' (JInt 2))) (\<lambda>wc.
              bind_err (py_int py (dict_get d ''control_plane_count'' (JInt 1))) (\<lambda>cpc.
              bind_err (py_int py (dict_get d ''worker_cores'' (JInt 2))) (\<lambda>wcores.
              bind_err (py_int py (dict_get d ''worker_memory_mb'' (JInt 2048))) (\<lambda>wmem.
              bind_err (py_int py (dict_get d ''cp_cores'' (JInt 2))) (\<lambda>cpcores.
              bind_err (py_int py (dict_get d ''cp_memory_mb'' (JInt 2048))) (\<lambda>cpmem.
              bind_err (py_int py (dict_get d ''ip_start'' (JInt 201))) (\<lambda>ips.
              (let spec = spec\<lparr>
                     worker_count := wc,
                     control_plane_count := cpc,
                     worker_spec := (worker_spec spec)\<lparr> cores := wcores, memory_mb := wmem \<rparr>,
                     control_plane_spec := (control_plane_spec spec)
                        \<lparr> cores := max cpcores 2, memory_mb := max cpmem 2048 \<rparr>,
                     ip_start := ips \<rparr>
               in bind_err (set_k8s_version py d (set_cni d spec)) (set_addons d))))))))))
      | _ \<Rightarrow> Inl AttributeError)"

section \<open>Texts\<close>

text \<open>
  \<open>str.strip()\<close> and the regular expression classes \<open>\s\<close> and \<open>\w\<close> on a Python 3
  \<open>str\<close>: white space and word characters as Unicode has them, for code points below 256.
\<close>

definition is_space :: "char \<Rightarrow> bool" where
  "is_space c =
     (let n = (of_char c :: nat)
      in (9 \<le> n \<and> n \<le> 13) \<or> (28 \<le> n \<and> n \<le> 32) \<or> n = 133 \<or> n = 160)"

definition is_digit :: "char \<Rightarrow> bool" where
  "is_digit c = (let n = (of_char c :: nat) in 48 \<le> n \<and> n \<le> 57)"

definition is_word :: "char \<Rightarrow> bool" where
  "is_word c =
     (let n = (of_char c :: nat)
      in (48 \<le> n \<and> n \<le> 57) \<or> (65 \<le> n \<and> n \<le> 90) \<or> n = 95 \<or> (97 \<le> n \<and> n \<le> 122) \<or>
         n = 170 \<or> n = 178 \<or> n = 179 \<or> n = 181 \<or> n = 185 \<or> n = 186 \<or>
         (188 \<le> n \<and> n \<le> 190) \<or> (192 \<le> n \<and> n \<le> 214) \<or> (216 \<le> n \<and> n \<le> 246) \<or>
         (248 \<le> n \<and> n \<le> 255))"

definition strip :: "string \<Rightarrow> string" where
  "strip s = rev (dropWhile is_space (rev (dropWhile is_space s)))"

definition startswith :: "string \<Rightarrow> string \<Rightarrow> bool" where
  "startswith s p = (take (length p) s = p)"

text \<open>\<open>s.find(c)\<close> and \<open>s.rfind(c)\<close> for a single character: an index, or \<open>-1\<close>.\<close>

definition py_find :: "char \<Rightarrow> string \<Rightarrow> int" where
  "py_find c s = (if c \<in> set s then int (length (takeWhile (\<lambda>x. x \<noteq> c) s)) else - 1)"

definition py_rfind :: "char \<Rightarrow> string \<Rightarrow> int" where
  "py_rfind c s =
     (if c \<in> set s then int (length s) - 1 - int (length (takeWhile (\<lambda>x. x \<noteq> c) (rev s)))
      else - 1)"

text \<open>\<open>s[a:b]\<close> for \<open>a\<close> and \<open>b\<close> that are not negative; it is empty when \<open>b \<le> a\<close>.\<close>

definition py_slice :: "string \<Rightarrow> int \<Rightarrow> int \<Rightarrow> string" where
  "py_slice s a b = take (nat (b - a)) (drop (nat a) s)"

section \<open>\<^verbatim>\<open>intent_parser_llm.py\<close>: the object in the reply\<close>

definition fence :: string where
  "fence = [CHR 0x60, CHR 0x60, CHR 0x60]"

text \<open>
  \<open>re.sub(r'^```\w*\s*\n?', '', text)\<close>. The pattern is anchored at the start, and each
  of its parts is greedy: after the fence it takes every word character, then every
  white space character (a newline is one), so that \<open>\n?\<close> is left with nothing.
\<close>

definition sub_open_fence :: "string \<Rightarrow> string" where
  "sub_open_fence text =
     (if startswith text fence
      then dropWhile is_space (dropWhile is_word (drop 3 text))
      else text)"

text \<open>
  \<open>re.sub(r'\n?```\s*$', '', text)\<close>. Without \<open>re.MULTILINE\<close>, \<open>$\<close> holds at the end
  of the text and before a newline that ends it; with \<open>\s*\<close> before it, the pattern
  matches at a position exactly when a fence stands there (after one optional newline)
  and only white space follows it, and it then takes the rest of the text. The leftmost
  such position is replaced; nothing is left after it for a second match.
\<close>

definition fence_tail :: "string \<Rightarrow> bool" where
  "fence_tail r = (startswith r fence \<and> list_all is_space (drop 3 r))"

definition matches_close :: "string \<Rightarrow> bool" where
  "matches_close s =
     (case s of
        [] \<Rightarrow> False
      | c # r \<Rightarrow> (c = CHR 0x0A \<and> fence_tail r) \<or> fence_tail s)"

fun sub_close_fence :: "string \<Rightarrow> string" where
  "sub_close_fence [] = []"
| "sub_close_fence (c # cs) = (if matches_close (c # cs) then [] else c # sub_close_fence cs)"

text \<open>The text in which the braces are looked for.\<close>

definition unfenced :: "string \<Rightarrow> string" where
  "unfenced text =
     (let text = strip text
      in if startswith text fence
         then strip (sub_close_fence (sub_open_fence text))
         else text)"

definition extract_json_from_response :: "py_builtins \<Rightarrow> string \<Rightarrow> error + json" where
  "extract_json_from_response py text =
     (let text = unfenced text;
          start = py_find CHR ''{'' text;
          stop = py_rfind CHR ''}'' text
      in if start = - 1 \<or> stop = - 1 then Inl ValueError
         else (case loads py (py_slice text start (stop + 1)) of
                 None \<Rightarrow> Inl JSONDecodeError
               | Some v \<Rightarrow> Inr v))"

section \<open>\<^verbatim>\<open>llm.py\<close>\<close>

text \<open>
  The two requests of \<open>OllamaClient\<close> end in \<open>urllib.request.urlopen\<close>; what the
  backend does is the environment: for each request, the body of the response or the
  exception raised (\<open>URLError\<close> stands for its subclass \<open>HTTPError\<close> too). When a
  Proxmox context is passed to \<open>parse_intent\<close>, \<open>prompt_text\<close> is what its
  \<open>to_prompt_text()\<close> returns or raises.
\<close>

record ollama_env =
  tags_response :: "error + string"
  chat_response :: "error + string"
  prompt_text :: "(error + string) option"

text \<open>\<open>OllamaClient._get\<close> catches \<open>URLError\<close> only.\<close>

definition ollama_get :: "py_builtins \<Rightarrow> error + string \<Rightarrow> error + json" where
  "ollama_get py response =
     (case response of
        Inl e \<Rightarrow> if e = URLError then Inl OllamaError else Inl e
      | Inr body \<Rightarrow> (case loads py body of None \<Rightarrow> Inl JSONDecodeError | Some v \<Rightarrow> Inr v))"

text \<open>\<open>OllamaClient._post\<close> catches \<open>URLError\<close> and \<open>JSONDecodeError\<close>.\<close>

definition ollama_post :: "py_builtins \<Rightarrow> error + string \<Rightarrow> error + json" where
  "ollama_post py response =
     (case response of
        Inl e \<Rightarrow> if e = URLError then Inl OllamaError else Inl e
      | Inr body \<Rightarrow> (case loads py body of None \<Rightarrow> Inl OllamaError | Some v \<Rightarrow> Inr v))"

text \<open>\<open>OllamaClient.is_available\<close>: any exception gives \<open>False\<close>.\<close>

definition ollama_is_available :: "py_builtins \<Rightarrow> ollama_env \<Rightarrow> bool" where
  "ollama_is_available py env =
     (case ollama_get py (tags_response env) of Inl e \<Rightarrow> False | Inr v \<Rightarrow> True)"

text \<open>\<open>v[k]\<close> for a string key.\<close>

fun py_getitem :: "json \<Rightarrow> string \<Rightarrow> error + json" where
  "py_getitem (JObj d) k = (case map_of d k of None \<Rightarrow> Inl KeyError | Some v \<Rightarrow> Inr v)"
| "py_getitem v k = Inl TypeError"

text \<open>\<open>OllamaClient.chat\<close>: \<open>result["message"]["content"]\<close>.\<close>

definition ollama_chat :: "py_builtins \<Rightarrow> ollama_env \<Rightarrow> error + json" where
  "ollama_chat py env =
     bind_err (ollama_post py (chat_response env)) (\<lambda>result.
     bind_err (py_getitem result ''message'') (\<lambda>m. py_getitem m ''content''))"

section \<open>\<^verbatim>\<open>intent_parser_llm.py\<close>: \<open>parse_intent\<close>\<close>

text \<open>The spec that \<open>parse_intent\<close> returns, with the two attributes it attaches.\<close>

record resolved =
  r_spec :: ClusterSpec
  llm_reasoning :: json
  llm_raw :: json

text \<open>
  The message sent to the backend is not part of the model: the reply is any text.
  A reply that is not a \<open>str\<close> has no \<open>strip\<close>.
\<close>

definition parse_intent :: "py_builtins \<Rightarrow> ollama_env \<Rightarrow> error + resolved" where
  "parse_intent py env =
     (if \<not> ollama_is_available py env then Inl OllamaError
      else
        bind_err (case prompt_text env of None \<Rightarrow> Inr [] | Some r \<Rightarrow> r) (\<lambda>user_message.
        bind_err (ollama_chat py env) (\<lambda>response.
        bind_err (case response of
                    JStr text \<Rightarrow> extract_json_from_response py text
                  | _ \<Rightarrow> Inl AttributeError) (\<lambda>data.
        bind_err (json_to_spec py data) (\<lambda>sp.
          (case data of
             JObj d \<Rightarrow> Inr \<lparr> r_spec = sp,
                            llm_reasoning = dict_get d ''reasoning'' (JStr []),
                            llm_raw = data \<rparr>
           | _ \<Rightarrow> Inl AttributeError))))))"

section \<open>A reference interpreter for concrete inputs\<close>

text \<open>
  \<open>int(s)\<close> in base ten: white space around, a sign, digits, single underscores
  between digits.
\<close>

definition is_int_space :: "char \<Rightarrow> bool" where
  "is_int_space c =
     (let n = (of_char c :: nat) in (9 \<le> n \<and> n \<le> 13) \<or> n = 32 \<or> n = 133 \<or> n = 160)"

definition digit_val :: "char \<Rightarrow> nat" where
  "digit_val c = of_char c - 48"

fun dec_digits :: "nat \<Rightarrow> string \<Rightarrow> nat option" where
  "dec_digits acc [] = Some acc"
| "dec_digits acc [c] = (if is_digit c then Some (10 * acc + digit_val c) else None)"
| "dec_digits acc (c # d # cs) =
     (if is_digit c then dec_digits (10 * acc + digit_val c) (d # cs)
      else if c = CHR ''_'' \<and> is_digit d then dec_digits (10 * acc + digit_val d) cs
      else None)"

definition dec_number :: "string \<Rightarrow> nat option" where
  "dec_number s =
     (case s of [] \<Rightarrow> None | c # cs \<Rightarrow> if is_digit c then dec_digits (digit_val c) cs else None)"

definition int_of_str_ref :: "string \<Rightarrow> int option" where
  "int_of_str_ref s =
     (case rev (dropWhile is_int_space (rev (dropWhile is_int_space s))) of
        [] \<Rightarrow> None
      | c # cs \<Rightarrow>
          if c = CHR ''-'' then map_option (\<lambda>n. - int n) (dec_number cs)
          else if c = CHR ''+'' then map_option int (dec_number cs)
          else map_option int (dec_number (c # cs)))"

text \<open>
  \<open>json.loads\<close> on the texts evaluated in this theory: two replies of the backend,
  the response of \<open>/api/chat\<close> that carries the second, and one that carries a reply
  in prose. Every other text evaluated below is one that \<open>json.loads\<close> rejects.
\<close>

definition reply_workers :: string where
  \<open>reply_workers = ''{"worker_count": 3}''\<close>

definition reply_nan :: string where
  \<open>reply_nan = ''{"worker_count": NaN}''\<close>

definition chat_body_nan :: string where
  \<open>chat_body_nan =
     ''{"message": {"content": "{'' @ [CHR 0x5C] @ ''"worker_count'' @ [CHR 0x5C] @ ''": NaN}"}}''\<close>

definition chat_body_prose :: string where
  \<open>chat_body_prose = ''{"message": {"content": "I cannot size this cluster."}}''\<close>

definition loads_ref :: "string \<Rightarrow> json option" where
  "loads_ref s =
     (if s = reply_workers then Some (JObj [(''worker_count'', JInt 3)])
      else if s = reply_nan then Some (JObj [(''worker_count'', JFloat NaN)])
      else if s = chat_body_nan
        then Some (JObj [(''message'', JObj [(''content'', JStr reply_nan)])])
      else if s = chat_body_prose
        then Some (JObj [(''message'', JObj [(''content'', JStr ''I cannot size this cluster.'')])])
      else if s = ''{}'' then Some (JObj [])
      else None)"

text \<open>No input evaluated below reaches \<open>repr_other\<close>.\<close>

definition py_ref :: py_builtins where
  "py_ref = \<lparr> int_of_str = int_of_str_ref, repr_other = (\<lambda>v. []), loads = loads_ref \<rparr>"

section \<open>Vocabulary of the theorems about \<open>_json_to_spec\<close>\<close>

text \<open>The keys of the reply that \<open>_json_to_spec\<close> passes to \<open>int\<close>.\<close>

definition numeric_keys :: "string list" where
  "numeric_keys = [''worker_count'', ''control_plane_count'', ''worker_cores'',
     ''worker_memory_mb'', ''cp_cores'', ''cp_memory_mb'', ''ip_start'']"

text \<open>The reply without the keys in \<open>S\<close>.\<close>

definition drop_keys :: "string set \<Rightarrow> (string \<times> json) list \<Rightarrow> (string \<times> json) list" where
  "drop_keys S d = filter (\<lambda>kv. fst kv \<notin> S) d"

text \<open>The spec after blocks 2 to 5 (the first so numbered), and the blocks after them.\<close>

definition numeric_spec ::
  "ClusterSpec \<Rightarrow> int \<Rightarrow> int \<Rightarrow> int \<Rightarrow> int \<Rightarrow> int \<Rightarrow> int \<Rightarrow> int \<Rightarrow> ClusterSpec" where
  "numeric_spec spec wc cpc wcores wmem cpcores cpmem ips =
     spec\<lparr> worker_count := wc,
           control_plane_count := cpc,
           worker_spec := (worker_spec spec)\<lparr> cores := wcores, memory_mb := wmem \<rparr>,
           control_plane_spec := (control_plane_spec spec)
              \<lparr> cores := max cpcores 2, memory_mb := max cpmem 2048 \<rparr>,
           ip_start := ips \<rparr>"

definition finish :: "py_builtins \<Rightarrow> (string \<times> json) list \<Rightarrow> ClusterSpec \<Rightarrow> error + ClusterSpec" where
  "finish py d sp = bind_err (set_k8s_version py d (set_cni d sp)) (set_addons d)"

definition same_numeric :: "ClusterSpec \<Rightarrow> ClusterSpec \<Rightarrow> bool" where
  "same_numeric s sp \<longleftrightarrow>
     worker_count s = worker_count sp \<and> control_plane_count s = control_plane_count sp \<and>
     worker_spec s = worker_spec sp \<and> control_plane_spec s = control_plane_spec sp \<and>
     ip_start s = ip_start sp \<and> ip_prefix s = ip_prefix sp"

text \<open>Blocks 6 and 7 raise nothing on this reply.\<close>

definition tail_ok :: "(string \<times> json) list \<Rightarrow> bool" where
  "tail_ok d \<longleftrightarrow>
     (if truthy (dict_get d ''k8s_version'' JNull)
      then hashable (dict_get d ''k8s_version'' JNull) else True) \<and>
     (if truthy (dict_get d ''addons'' JNull)
      then (\<exists>xs. py_list (dict_get d ''addons'' JNull) = Inr xs) else True)"

text \<open>A reply that sizes the cluster, evaluated in the witnesses.\<close>

definition reply_sized :: "(string \<times> json) list" where
  "reply_sized = [(''worker_count'', JInt 5), (''cp_cores'', JInt 4), (''ip_start'', JStr ''210'')]"

text \<open>A reply that asks for less than the floor, evaluated in the witness.\<close>

definition reply_small_cp :: "(string \<times> json) list" where
  "reply_small_cp = [(''cp_cores'', JInt 1), (''cp_memory_mb'', JStr ''512'')]"

text \<open>Replies that name a plugin, evaluated in the witness and the counterexample.\<close>

definition reply_calico :: "(string \<times> json) list" where
  "reply_calico = [(''cni_plugin'', JStr ''calico'')]"

definition reply_weave :: "(string \<times> json) list" where
  "reply_weave = [(''cni_plugin'', JStr ''weave'')]"

text \<open>Replies that name a version, evaluated in the witness and the counterexample.\<close>

definition reply_version :: "string \<Rightarrow> (string \<times> json) list" where
  "reply_version m = [(''k8s_version'', JStr m)]"

text \<open>Replies with a worker count that \<open>int\<close> rejects.\<close>

definition reply_workers_of :: "json \<Rightarrow> (string \<times> json) list" where
  "reply_workers_of v = [(''worker_count'', v), (''cp_cores'', JInt 4)]"

text \<open>Reading a decimal numeral back: the inverse of \<open>str_nat\<close> and \<open>str_int\<close>.\<close>

definition nat_of_digits :: "string \<Rightarrow> nat" where
  "nat_of_digits s = foldl (\<lambda>a c. 10 * a + digit_val c) 0 s"

definition int_of_digits :: "string \<Rightarrow> int" where
  "int_of_digits s =
     (case s of
        [] \<Rightarrow> 0
      | c # r \<Rightarrow> if c = CHR ''-'' then - int (nat_of_digits r) else int (nat_of_digits s))"

section \<open>Vocabulary of the theorems about \<open>_extract_json_from_response\<close>\<close>

text \<open>The span from the first \<open>{\<close> to the last \<open>}\<close> of a text, when it has both.\<close>

definition brace_span :: "string \<Rightarrow> string option" where
  "brace_span text =
     (let start = py_find CHR ''{'' text; stop = py_rfind CHR ''}'' text
      in if start = - 1 \<or> stop = - 1 then None else Some (py_slice text start (stop + 1)))"

definition brace_free :: "string \<Rightarrow> bool" where
  "brace_free x = (CHR ''{'' \<notin> set x \<and> CHR ''}'' \<notin> set x)"

text \<open>\<open>u\<close> is \<open>t\<close> without a prefix and a suffix that hold no brace.\<close>

definition trims :: "string \<Rightarrow> string \<Rightarrow> bool" where
  "trims t u = (\<exists>p q. t = p @ u @ q \<and> brace_free p \<and> brace_free q)"

text \<open>
  A reply in a markdown fence: the opening fence with its language tag on a line of its
  own, the text, and the closing fence (on a line of its own) when there is one.
\<close>

definition fenced :: "string \<Rightarrow> bool \<Rightarrow> string \<Rightarrow> string" where
  "fenced lang closing t =
     fence @ lang @ [CHR 0x0A] @ t @ (if closing then CHR 0x0A # fence else [])"

text \<open>The reply holds no span from a first \<open>{\<close> to a last \<open>}\<close> that \<open>json.loads\<close> reads.\<close>

definition no_object :: "py_builtins \<Rightarrow> string \<Rightarrow> bool" where
  "no_object py text = (case brace_span text of None \<Rightarrow> True | Some sp \<Rightarrow> loads py sp = None)"

text \<open>No Proxmox context is passed, or its \<open>to_prompt_text()\<close> returns.\<close>

definition prompt_ok :: "ollama_env \<Rightarrow> bool" where
  "prompt_ok env = (case prompt_text env of Some (Inl e) \<Rightarrow> False | _ \<Rightarrow> True)"

text \<open>Backends evaluated in the witness and the counterexample.\<close>

definition env_down :: ollama_env where
  "env_down = \<lparr> tags_response = Inl URLError, chat_response = Inl URLError, prompt_text = None \<rparr>"

definition env_prose :: ollama_env where
  "env_prose = \<lparr> tags_response = Inr ''{}'', chat_response = Inr chat_body_prose, prompt_text = None \<rparr>"

definition env_nan :: ollama_env where
  "env_nan = \<lparr> tags_response = Inr ''{}'', chat_response = Inr chat_body_nan, prompt_text = None \<rparr>"

definition env_html :: ollama_env where
  "env_html = \<lparr> tags_response = Inr ''{}'', chat_response = Inr ''<html>'', prompt_text = None \<rparr>"

section \<open>\<^verbatim>\<open>orchestrator.py\<close>\<close>

datatype Stage = PACKER | TERRAFORM | ANSIBLE | ADDONS

text \<open>
  The message of a stage result is a formatted text; the model keeps which format it is
  and the values formatted.
\<close>

datatype message =
    DryRunWouldExecute string string
  | CompletedIn real
  | FailedExitCode int
  | CommandNotFound string
  | ExceptionText string
  | NoPlaybook
  | DryRunWouldWait

record StageResult =
  stage :: Stage
  success :: bool
  duration_s :: real
  message :: message

text \<open>
  What \<open>subprocess.run\<close> does with a command is the environment: it returns with an exit
  code, or raises \<open>FileNotFoundError\<close>, or raises another exception (with its text). So
  are the clock (\<open>elapsed\<close>, the time a command took) and the file system
  (\<open>addons_playbook\<close>, whether \<open>ansible/addons.yml\<close> exists). A working directory is
  named by its path under the project root.
\<close>

datatype proc_outcome = Exited int | FileNotFound | Raised string

record shell_env =
  subprocess_run :: "string list \<Rightarrow> string \<Rightarrow> proc_outcome"
  elapsed :: "string list \<Rightarrow> real"
  addons_playbook :: bool

text \<open>What the pipeline does to the world, in order: the commands it runs and its pauses.\<close>

datatype event = Executed Stage "string list" string | Slept nat

text \<open>\<open>" ".join(cmd)\<close>.\<close>

fun join_words :: "string list \<Rightarrow> string" where
  "join_words [] = []"
| "join_words [w] = w"
| "join_words (w # ws) = w @ '' '' @ join_words ws"

text \<open>\<open>cmd[0]\<close>; every caller passes a command that is not empty.\<close>

definition command_name :: "string list \<Rightarrow> string" where
  "command_name cmd = (case cmd of [] \<Rightarrow> [] | c # cs \<Rightarrow> c)"

text \<open>
  \<open>_run\<close>. The callers pass the four names of \<open>Stage\<close> as \<open>stage_name\<close>, and
  \<open>Stage(stage_name)\<close> is the member so named: the model takes the member.
\<close>

definition run ::
  "shell_env \<Rightarrow> string list \<Rightarrow> string \<Rightarrow> Stage \<Rightarrow> bool \<Rightarrow> event list \<Rightarrow> StageResult \<times> event list" where
  "run env cmd cwd st dry_run tr =
     (if dry_run
      then (\<lparr> stage = st, success = True, duration_s = 0,
              message = DryRunWouldExecute (join_words cmd) cwd \<rparr>, tr)
      else
        (let tr' = tr @ [Executed st cmd cwd]; t = elapsed env cmd
         in case subprocess_run env cmd cwd of
              Exited rc \<Rightarrow>
                if rc = 0
                then (\<lparr> stage = st, success = True, duration_s = t, message = CompletedIn t \<rparr>, tr')
                else (\<lparr> stage = st, success = False, duration_s = t,
                        message = FailedExitCode rc \<rparr>, tr')
            | FileNotFound \<Rightarrow>
                (\<lparr> stage = st, success = False, duration_s = t,
                   message = CommandNotFound (command_name cmd) \<rparr>, tr')
            | Raised m \<Rightarrow>
                (\<lparr> stage = st, success = False, duration_s = t, message = ExceptionText m \<rparr>, tr')))"

definition run_packer :: "shell_env \<Rightarrow> bool \<Rightarrow> event list \<Rightarrow> StageResult \<times> event list" where
  "run_packer env dry_run tr =
     run env [''packer'', ''build'', ''-force'', ''.''] ''packer'' PACKER dry_run tr"

definition run_terraform ::
  "shell_env \<Rightarrow> bool \<Rightarrow> bool \<Rightarrow> event list \<Rightarrow> StageResult \<times> event list" where
  "run_terraform env dry_run auto_approve tr =
     (let (init_result, tr1) = run env [''terraform'', ''init''] ''terraform'' TERRAFORM dry_run tr
      in if \<not> success init_result \<and> \<not> dry_run then (init_result, tr1)
         else
           (let (plan_result, tr2) =
                  run env [''terraform'', ''plan'', ''-out=tfplan''] ''terraform'' TERRAFORM dry_run tr1
            in if \<not> success plan_result \<and> \<not> dry_run then (plan_result, tr2)
               else
                 (let apply_cmd =
                        [''terraform'', ''apply''] @
                        (if auto_approve then [''-auto-approve''] else []) @ [''tfplan'']
                  in run env apply_cmd ''terraform'' TERRAFORM dry_run tr2)))"

definition run_ansible ::
  "shell_env \<Rightarrow> ClusterSpec \<Rightarrow> bool \<Rightarrow> event list \<Rightarrow> StageResult \<times> event list" where
  "run_ansible env spec dry_run tr =
     run env [''ansible-playbook'', ''-i'', ''inventory.ini'', ''site.yml''] ''ansible'' ANSIBLE
       dry_run tr"

definition run_addons ::
  "shell_env \<Rightarrow> ClusterSpec \<Rightarrow> bool \<Rightarrow> event list \<Rightarrow> StageResult \<times> event list" where
  "run_addons env spec dry_run tr =
     (if \<not> addons_playbook env
      then (\<lparr> stage = ADDONS, success = True, duration_s = 0, message = NoPlaybook \<rparr>, tr)
      else run env [''ansible-playbook'', ''-i'', ''inventory.ini'', ''addons.yml''] ''ansible''
             ADDONS dry_run tr)"

text \<open>
  \<open>run_pipeline\<close>: the list of results it returns, and what it did to the world.
  \<open>time.sleep(60)\<close> is the event \<open>Slept 60\<close>.
\<close>

definition run_pipeline ::
  "shell_env \<Rightarrow> ClusterSpec \<Rightarrow> bool \<Rightarrow> bool \<Rightarrow> bool \<Rightarrow> StageResult list \<times> event list" where
  "run_pipeline env spec skip_packer auto_approve dry_run =
     (let (results0, tr0, halt0) =
            (if \<not> skip_packer
             then (let (result, tr) = run_packer env dry_run []
                   in ([result], tr, \<not> success result \<and> \<not> dry_run))
             else ([], [], False))
      in if halt0 then (results0, tr0)
         else
           (let (result1, tr1) = run_terraform env dry_run auto_approve tr0;
                results1 = results0 @ [result1]
            in if \<not> success result1 \<and> \<not> dry_run then (results1, tr1)
               else
                 (let (results2, tr2) =
                        (if \<not> dry_run then (results1, tr1 @ [Slept 60])
                         else (results1 @ [\<lparr> stage = TERRAFORM, success = True, duration_s = 0,
                                             message = DryRunWouldWait \<rparr>], tr1));
                      (result3, tr3) = run_ansible env spec dry_run tr2;
                      results3 = results2 @ [result3]
                  in if \<not> success result3 \<and> \<not> dry_run then (results3, tr3)
                     else if addons spec \<noteq> []
                       then (let (result4, tr4) = run_addons env spec dry_run tr3
                             in (results3 @ [result4], tr4))
                       else (results3, tr3))))"

text \<open>The stages a run goes through when none fails.\<close>

definition planned :: "bool \<Rightarrow> ClusterSpec \<Rightarrow> Stage list" where
  "planned skip_packer spec =
     (if skip_packer then [] else [PACKER]) @ [TERRAFORM, ANSIBLE] @
     (if addons spec = [] then [] else [ADDONS])"

text \<open>The stage on whose account an event happened: the pause belongs to none.\<close>

fun event_of :: "Stage \<Rightarrow> event \<Rightarrow> bool" where
  "event_of st (Executed s cmd cwd) = (s = st)"
| "event_of st (Slept n) = False"

definition extends :: "Stage \<Rightarrow> event list \<Rightarrow> event list \<Rightarrow> bool" where
  "extends st tr tr' = (\<exists>new. tr' = tr @ new \<and> list_all (event_of st) new)"

text \<open>
  Every command run belongs to a stage in \<open>S\<close>, and the pause was made only when
  \<open>ANSIBLE\<close> is in \<open>S\<close>.
\<close>

definition trace_within :: "Stage set \<Rightarrow> event list \<Rightarrow> bool" where
  "trace_within S tr =
     list_all (\<lambda>ev. case ev of Executed st cmd cwd \<Rightarrow> st \<in> S | Slept n \<Rightarrow> ANSIBLE \<in> S) tr"

text \<open>
  A command went well when \<open>subprocess.run\<close> returned with exit code 0: not when it
  returned with another code, and not when it raised.
\<close>

definition exited_ok :: "shell_env \<Rightarrow> string list \<Rightarrow> string \<Rightarrow> bool" where
  "exited_ok env cmd cwd = (subprocess_run env cmd cwd = Exited 0)"

text \<open>
  A stage went well when each of its commands did: the one build of the image; \<open>init\<close>,
  \<open>plan\<close> and \<open>apply\<close> of the infrastructure; the one playbook of the configuration; the
  add-ons playbook, when the file is there (with no file the stage does nothing).
\<close>

fun stage_ok :: "shell_env \<Rightarrow> bool \<Rightarrow> Stage \<Rightarrow> bool" where
  "stage_ok env auto_approve PACKER =
     exited_ok env [''packer'', ''build'', ''-force'', ''.''] ''packer''"
| "stage_ok env auto_approve TERRAFORM =
     (exited_ok env [''terraform'', ''init''] ''terraform'' \<and>
      exited_ok env [''terraform'', ''plan'', ''-out=tfplan''] ''terraform'' \<and>
      exited_ok env ([''terraform'', ''apply''] @
         (if auto_approve then [''-auto-approve''] else []) @ [''tfplan'']) ''terraform'')"
| "stage_ok env auto_approve ANSIBLE =
     exited_ok env [''ansible-playbook'', ''-i'', ''inventory.ini'', ''site.yml''] ''ansible''"
| "stage_ok env auto_approve ADDONS =
     (if addons_playbook env
      then exited_ok env [''ansible-playbook'', ''-i'', ''inventory.ini'', ''addons.yml''] ''ansible''
      else True)"

text \<open>The stages of a plan up to and including the first that does not go well.\<close>

fun upto_failure :: "('a \<Rightarrow> bool) \<Rightarrow> 'a list \<Rightarrow> 'a list" where
  "upto_failure ok [] = []"
| "upto_failure ok (x # xs) = (if ok x then x # upto_failure ok xs else [x])"

text \<open>
  A world in which \<open>terraform init\<close> exits with 1 and every other command with 0, and a
  spec with an add-on: the pipeline evaluated in the witness.
\<close>

definition env_init_fails :: shell_env where
  "env_init_fails =
     \<lparr> subprocess_run = (\<lambda>cmd cwd. if cmd = [''terraform'', ''init''] then Exited 1 else Exited 0),
       elapsed = (\<lambda>cmd. 0),
       addons_playbook = True \<rparr>"

text \<open>A world in which there is no \<open>terraform\<close> to run and every other command exits with 0.\<close>

definition env_no_terraform :: shell_env where
  "env_no_terraform =
     \<lparr> subprocess_run = (\<lambda>cmd cwd. if command_name cmd = ''terraform'' then FileNotFound else Exited 0),
       elapsed = (\<lambda>cmd. 0),
       addons_playbook = True \<rparr>"

definition spec_with_addon :: ClusterSpec where
  "spec_with_addon = default_spec \<lparr> addons := [JStr ''metallb''] \<rparr>"

section \<open>\<^verbatim>\<open>proxmox_client.py\<close>\<close>

text \<open>
  The arithmetic of floats is a parameter of the model: \<open>x // n\<close> and \<open>x / n\<close> for a
  float \<open>x\<close> and a positive integer \<open>n\<close> (neither raises), and \<open>a / n\<close> for two
  integers, which gives a float or raises \<open>OverflowError\<close>.
\<close>

record float_ops =
  float_floordiv :: "pyfloat \<Rightarrow> int \<Rightarrow> pyfloat"
  float_truediv :: "pyfloat \<Rightarrow> int \<Rightarrow> pyfloat"
  int_truediv :: "int \<Rightarrow> int \<Rightarrow> error + pyfloat"

text \<open>\<open>v // n\<close> and \<open>v / n\<close> for a positive integer \<open>n\<close>; a \<open>bool\<close> is an integer.\<close>

fun py_floordiv :: "float_ops \<Rightarrow> json \<Rightarrow> int \<Rightarrow> error + json" where
  "py_floordiv fl (JInt a) n = Inr (JInt (a div n))"
| "py_floordiv fl (JBool b) n = Inr (JInt ((if b then 1 else 0) div n))"
| "py_floordiv fl (JFloat x) n = Inr (JFloat (float_floordiv fl x n))"
| "py_floordiv fl v n = Inl TypeError"

fun py_truediv :: "float_ops \<Rightarrow> json \<Rightarrow> int \<Rightarrow> error + json" where
  "py_truediv fl (JInt a) n = map_sum id JFloat (int_truediv fl a n)"
| "py_truediv fl (JBool b) n = map_sum id JFloat (int_truediv fl (if b then 1 else 0) n)"
| "py_truediv fl (JFloat x) n = Inr (JFloat (float_truediv fl x n))"
| "py_truediv fl v n = Inl TypeError"

text \<open>\<open>v.get(k, default)\<close> on any value: only a dict has \<open>get\<close>.\<close>

fun py_get :: "json \<Rightarrow> string \<Rightarrow> json \<Rightarrow> error + json" where
  "py_get (JObj d) k dflt = Inr (dict_get d k dflt)"
| "py_get v k dflt = Inl AttributeError"

text \<open>\<open>v == n\<close> for an integer \<open>n\<close>: \<open>True == 1\<close> and \<open>1.0 == 1\<close> hold in Python.\<close>

fun py_eq_int :: "json \<Rightarrow> int \<Rightarrow> bool" where
  "py_eq_int (JInt a) n = (a = n)"
| "py_eq_int (JBool b) n = ((if b then 1 else 0) = n)"
| "py_eq_int (JFloat (Finite r)) n = (r = of_int n)"
| "py_eq_int v n = False"

text \<open>\<open>try: x = m\<close> \<open>except Exception: pass\<close>, with \<open>x\<close> holding \<open>dflt\<close> before.\<close>

definition except_pass :: "error + 'a \<Rightarrow> 'a \<Rightarrow> error + 'a" where
  "except_pass m dflt = (case m of Inl e \<Rightarrow> Inr dflt | Inr x \<Rightarrow> Inr x)"

text \<open>
  The fields of \<open>VMInfo\<close> named \<open>name\<close>, \<open>cores\<close> and \<open>memory_mb\<close> are \<open>vm_name\<close>,
  \<open>vm_cores\<close> and \<open>vm_memory_mb\<close> here. As in \<open>ClusterSpec\<close>, a field holds whatever
  value the code stores.
\<close>

record VMInfo =
  vmid :: json
  vm_name :: json
  status :: json
  vm_cores :: json
  vm_memory_mb :: json
  ips :: "string list"

record NodeResources =
  cpu_total :: json
  cpu_used :: json
  memory_total_mb :: json
  memory_used_mb :: json
  storage_total_gb :: json
  storage_used_gb :: json

definition default_resources :: NodeResources where
  "default_resources =
     \<lparr> cpu_total = JInt 0, cpu_used = JFloat (Finite 0), memory_total_mb = JInt 0,
       memory_used_mb = JInt 0, storage_total_gb = JFloat (Finite 0),
       storage_used_gb = JFloat (Finite 0) \<rparr>"

record ProxmoxContext =
  node_name :: string
  resources :: NodeResources
  existing_vms :: "VMInfo list"
  used_ips :: "string list"

text \<open>
  \<open>ProxmoxClient._get\<close> is the environment: for each path, the JSON value it returns or
  the exception it raises. \<open>node\<close> is \<open>self.config.target_node\<close>.
\<close>

type_synonym proxmox_api = "string \<Rightarrow> error + json"

definition get_node_resources ::
  "float_ops \<Rightarrow> proxmox_api \<Rightarrow> string \<Rightarrow> error + NodeResources" where
  "get_node_resources fl api node =
     bind_err (api (''/nodes/'' @ node @ ''/status'')) (\<lambda>data.
     bind_err (py_get data ''data'' (JObj [])) (\<lambda>status.
     bind_err (py_get status ''cpuinfo'' (JObj [])) (\<lambda>cpu_info.
     bind_err (py_get status ''memory'' (JObj [])) (\<lambda>memory.
     bind_err (py_get status ''rootfs'' (JObj [])) (\<lambda>rootfs.
     bind_err (py_get cpu_info ''cpus'' (JInt 0)) (\<lambda>cpus.
     bind_err (py_get status ''cpu'' (JFloat (Finite 0))) (\<lambda>cpu.
     bind_err (bind_err (py_get memory ''total'' (JInt 0)) (\<lambda>v. py_floordiv fl v (1024 * 1024))) (\<lambda>mt.
     bind_err (bind_err (py_get memory ''used'' (JInt 0)) (\<lambda>v. py_floordiv fl v (1024 * 1024))) (\<lambda>mu.
     bind_err (bind_err (py_get rootfs ''total'' (JInt 0)) (\<lambda>v. py_truediv fl v (1024 ^ 3))) (\<lambda>st.
     bind_err (bind_err (py_get rootfs ''used'' (JInt 0)) (\<lambda>v. py_truediv fl v (1024 ^ 3))) (\<lambda>su.
       Inr \<lparr> cpu_total = cpus, cpu_used = cpu, memory_total_mb = mt, memory_used_mb = mu,
             storage_total_gb = st, storage_used_gb = su \<rparr>)))))))))))"

text \<open>The inner loop of \<open>_get_vm_ips\<close>: the addresses of one interface, appended to \<open>acc\<close>.\<close>

fun addr_ips :: "json list \<Rightarrow> string list \<Rightarrow> error + string list" where
  "addr_ips [] acc = Inr acc"
| "addr_ips (addr # addrs) acc =
     bind_err (py_get addr ''ip-address-type'' JNull) (\<lambda>ty.
       if ty = JStr ''ipv4''
       then bind_err (py_get addr ''ip-address'' (JStr [])) (\<lambda>ip.
              if truthy ip
              then (case ip of
                      JStr a \<Rightarrow> addr_ips addrs (if \<not> startswith a ''127.'' then acc @ [a] else acc)
                    | _ \<Rightarrow> Inl AttributeError)
              else addr_ips addrs acc)
       else addr_ips addrs acc)"

text \<open>The outer loop: \<open>for iface in ...\<close> iterates as \<open>list\<close> does.\<close>

fun iface_ips :: "json list \<Rightarrow> string list \<Rightarrow> error + string list" where
  "iface_ips [] acc = Inr acc"
| "iface_ips (iface # ifaces) acc =
     bind_err (py_get iface ''name'' JNull) (\<lambda>nm.
       if nm = JStr ''lo'' then iface_ips ifaces acc
       else bind_err (bind_err (py_get iface ''ip-addresses'' (JList [])) py_list) (\<lambda>addrs.
            bind_err (addr_ips addrs acc) (iface_ips ifaces)))"

definition get_vm_ips ::
  "py_builtins \<Rightarrow> proxmox_api \<Rightarrow> string \<Rightarrow> json \<Rightarrow> error + string list" where
  "get_vm_ips py api node vm_id =
     bind_err (api (''/nodes/'' @ node @ ''/qemu/'' @ py_format py vm_id @
                    ''/agent/network-get-interfaces'')) (\<lambda>data.
     bind_err (py_get data ''data'' (JObj [])) (\<lambda>d.
     bind_err (bind_err (py_get d ''result'' (JList [])) py_list) (\<lambda>ifaces.
       iface_ips ifaces [])))"

text \<open>
  The record that the loop of \<open>_get_vms\<close> builds for one entry: the statements
  \<open>vmid = ...\<close> and \<open>vm = VMInfo(...)\<close>.
\<close>

definition vm_record :: "py_builtins \<Rightarrow> float_ops \<Rightarrow> json \<Rightarrow> error + VMInfo" where
  "vm_record py fl entry =
     bind_err (py_get entry ''vmid'' (JInt 0)) (\<lambda>vm_id.
     bind_err (py_get entry ''name'' (JStr (''vm-'' @ py_format py vm_id))) (\<lambda>nm.
     bind_err (py_get entry ''status'' (JStr ''unknown'')) (\<lambda>st.
     bind_err (py_get entry ''cpus'' (JInt 0)) (\<lambda>cpus.
     bind_err (bind_err (py_get entry ''maxmem'' (JInt 0))
                 (\<lambda>v. py_floordiv fl v (1024 * 1024))) (\<lambda>mem.
       Inr \<lparr> vmid = vm_id, vm_name = nm, status = st, vm_cores = cpus,
             vm_memory_mb = mem, ips = [] \<rparr>)))))"

text \<open>
  The body of the loop of \<open>_get_vms\<close> for one entry: \<open>None\<close> for a template, which is
  skipped. The guest agent is asked for \<open>vmid\<close>, which is \<open>vm.vmid\<close>.
\<close>

definition vm_of_entry ::
  "py_builtins \<Rightarrow> float_ops \<Rightarrow> proxmox_api \<Rightarrow> string \<Rightarrow> json \<Rightarrow> error + VMInfo option" where
  "vm_of_entry py fl api node entry =
     bind_err (py_get entry ''template'' (JInt 0)) (\<lambda>template.
       if py_eq_int template 1 then Inr None
       else
         bind_err (vm_record py fl entry) (\<lambda>vm.
         bind_err (if status vm = JStr ''running''
                   then except_pass (get_vm_ips py api node (vmid vm)) (ips vm)
                   else Inr (ips vm))
           (\<lambda>found. Inr (Some (vm\<lparr> ips := found \<rparr>)))))"

fun vms_of_entries ::
  "py_builtins \<Rightarrow> float_ops \<Rightarrow> proxmox_api \<Rightarrow> string \<Rightarrow> json list \<Rightarrow> VMInfo list \<Rightarrow>
   error + VMInfo list" where
  "vms_of_entries py fl api node [] vms = Inr vms"
| "vms_of_entries py fl api node (entry # entries) vms =
     bind_err (vm_of_entry py fl api node entry) (\<lambda>r.
       vms_of_entries py fl api node entries (case r of None \<Rightarrow> vms | Some vm \<Rightarrow> vms @ [vm]))"

definition get_vms ::
  "py_builtins \<Rightarrow> float_ops \<Rightarrow> proxmox_api \<Rightarrow> string \<Rightarrow> error + VMInfo list" where
  "get_vms py fl api node =
     bind_err (api (''/nodes/'' @ node @ ''/qemu'')) (\<lambda>data.
     bind_err (bind_err (py_get data ''data'' (JList [])) py_list) (\<lambda>entries.
       vms_of_entries py fl api node entries []))"

text \<open>\<open>discover\<close>, statement by statement.\<close>

definition discover ::
  "py_builtins \<Rightarrow> float_ops \<Rightarrow> proxmox_api \<Rightarrow> string \<Rightarrow> error + ProxmoxContext" where
  "discover py fl api node =
     (let ctx = \<lparr> node_name = node, resources = default_resources, existing_vms = [],
                  used_ips = [] \<rparr>
      in bind_err (except_pass (get_node_resources fl api node) (resources ctx)) (\<lambda>r.
         let ctx = ctx\<lparr> resources := r \<rparr>
         in bind_err (except_pass (get_vms py fl api node) (existing_vms ctx)) (\<lambda>vms.
            let ctx = ctx\<lparr> existing_vms := vms \<rparr>;
                ctx = foldl (\<lambda>c vm. c\<lparr> used_ips := used_ips c @ ips vm \<rparr>) ctx (existing_vms ctx)
            in Inr ctx)))"

text \<open>The address list of a listed guest.\<close>

definition guest_ips_ok :: "py_builtins \<Rightarrow> proxmox_api \<Rightarrow> string \<Rightarrow> VMInfo \<Rightarrow> bool" where
  "guest_ips_ok py api node vm =
     (ips vm =
        (if status vm = JStr ''running''
         then (case get_vm_ips py api node (vmid vm) of Inl e \<Rightarrow> [] | Inr found \<Rightarrow> found)
         else []))"

text \<open>A guest record without its addresses, and a listing without them.\<close>

definition no_ips :: "VMInfo \<Rightarrow> VMInfo" where
  "no_ips vm = vm\<lparr> ips := [] \<rparr>"

text \<open>
  Float arithmetic without rounding or overflow, for the concrete inputs evaluated in
  this theory (none of them divides a float).
\<close>

definition float_ops_ref :: float_ops where
  "float_ops_ref =
     \<lparr> float_floordiv = (\<lambda>x n. case x of Finite r \<Rightarrow> Finite (of_int \<lfloor>r / of_int n\<rfloor>) | _ \<Rightarrow> NaN),
       float_truediv = (\<lambda>x n. case x of Finite r \<Rightarrow> Finite (r / of_int n) | y \<Rightarrow> y),
       int_truediv = (\<lambda>a n. Inr (Finite (of_int a / of_int n))) \<rparr>"

text \<open>
  A host whose status query fails and whose guest list has a running guest, a template
  and a stopped guest; the guest agent of the running guest does not answer in
  \<open>api_agent_down\<close> and reports a loopback and a LAN address in \<open>api_agent_up\<close>.
\<close>

definition guest_list :: json where
  "guest_list =
     JObj [(''data'', JList
       [JObj [(''vmid'', JInt 101), (''name'', JStr ''k8s-node-1''), (''status'', JStr ''running''),
              (''cpus'', JInt 2), (''maxmem'', JInt 2147483648)],
        JObj [(''vmid'', JInt 990), (''template'', JInt 1)],
        JObj [(''vmid'', JInt 102), (''status'', JStr ''stopped'')]])]"

definition agent_reply :: json where
  "agent_reply =
     JObj [(''data'', JObj [(''result'', JList
       [JObj [(''name'', JStr ''lo''),
              (''ip-addresses'', JList [JObj [(''ip-address-type'', JStr ''ipv4''),
                                             (''ip-address'', JStr ''127.0.0.1'')]])],
        JObj [(''name'', JStr ''eth0''),
              (''ip-addresses'', JList [JObj [(''ip-address-type'', JStr ''ipv4''),
                                             (''ip-address'', JStr ''10.40.19.201'')],
                                       JObj [(''ip-address-type'', JStr ''ipv6''),
                                             (''ip-address'', JStr ''fe80::1'')]])]])])]"

definition api_agent_down :: proxmox_api where
  "api_agent_down path = (if path = ''/nodes/pve1/qemu'' then Inr guest_list else Inl RuntimeError)"

definition api_agent_up :: proxmox_api where
  "api_agent_up path =
     (if path = ''/nodes/pve1/qemu'' then Inr guest_list
      else if path = ''/nodes/pve1/qemu/101/agent/network-get-interfaces'' then Inr agent_reply
      else Inl RuntimeError)"

definition guest_101 :: VMInfo where
  "guest_101 = \<lparr> vmid = JInt 101, vm_name = JStr ''k8s-node-1'', status = JStr ''running'',
                  vm_cores = JInt 2, vm_memory_mb = JInt 2048, ips = [] \<rparr>"

definition guest_102 :: VMInfo where
  "guest_102 = \<lparr> vmid = JInt 102, vm_name = JStr ''vm-102'', status = JStr ''stopped'',
                  vm_cores = JInt 0, vm_memory_mb = JInt 0, ips = [] \<rparr>"

section \<open>Lemmas about \<open>_json_to_spec\<close>\<close>

lemma bind_err_Inr_iff: "bind_err m f = Inr y \<longleftrightarrow> (\<exists>x. m = Inr x \<and> f x = Inr y)"
  by (cases m) (auto simp: bind_err_def)

lemma version_map_get_Inr_iff: "(\<exists>full. version_map_get py v = Inr full) \<longleftrightarrow> hashable v"
  by (cases v) (auto simp: version_map_get_def Let_def split: option.splits)

lemma set_cni_numeric: "same_numeric (set_cni d sp) sp"
  by (simp add: set_cni_def same_numeric_def Let_def)

lemma set_k8s_version_numeric: "set_k8s_version py d sp = Inr s \<Longrightarrow> same_numeric s sp"
  by (auto simp: set_k8s_version_def same_numeric_def Let_def bind_err_Inr_iff split: if_splits)

lemma set_addons_numeric: "set_addons d sp = Inr s \<Longrightarrow> same_numeric s sp"
  by (auto simp: set_addons_def same_numeric_def bind_err_Inr_iff split: if_splits)

lemma finish_numeric:
  assumes "finish py d sp = Inr s"
  shows "same_numeric s sp"
proof -
  from assms obtain s1 where a: "set_k8s_version py d (set_cni d sp) = Inr s1"
    and b: "set_addons d s1 = Inr s"
    by (auto simp: bind_err_Inr_iff finish_def)
  show ?thesis
    using set_cni_numeric [of d sp] set_k8s_version_numeric [OF a] set_addons_numeric [OF b]
    by (simp add: same_numeric_def)
qed

lemma set_k8s_version_ok:
  "(\<exists>s. set_k8s_version py d sp = Inr s) \<longleftrightarrow>
     (if truthy (dict_get d ''k8s_version'' JNull) then hashable (dict_get d ''k8s_version'' JNull) else True)"
  using version_map_get_Inr_iff [of py "dict_get d ''k8s_version'' JNull"]
  by (simp add: set_k8s_version_def Let_def bind_err_Inr_iff)

lemma set_addons_ok:
  "(\<exists>s. set_addons d sp = Inr s) \<longleftrightarrow>
     (if truthy (dict_get d ''addons'' JNull) then (\<exists>xs. py_list (dict_get d ''addons'' JNull) = Inr xs) else True)"
  by (simp add: set_addons_def bind_err_Inr_iff)

lemma finish_ok: "(\<exists>s. finish py d sp = Inr s) \<longleftrightarrow> tail_ok d"
proof
  assume "\<exists>s. finish py d sp = Inr s"
  then obtain s s1 where a: "set_k8s_version py d (set_cni d sp) = Inr s1"
    and b: "set_addons d s1 = Inr s"
    by (auto simp: bind_err_Inr_iff finish_def)
  from a have "\<exists>s. set_k8s_version py d (set_cni d sp) = Inr s" by blast
  moreover from b have "\<exists>s. set_addons d s1 = Inr s" by blast
  ultimately show "tail_ok d"
    unfolding tail_ok_def set_k8s_version_ok set_addons_ok by blast
next
  assume ok: "tail_ok d"
  then have "\<exists>s1. set_k8s_version py d (set_cni d sp) = Inr s1"
    unfolding tail_ok_def set_k8s_version_ok by blast
  then obtain s1 where a: "set_k8s_version py d (set_cni d sp) = Inr s1" by blast
  from ok have "\<exists>s. set_addons d s1 = Inr s"
    unfolding tail_ok_def set_addons_ok by blast
  with a show "\<exists>s. finish py d sp = Inr s"
    by (auto simp: bind_err_Inr_iff finish_def)
qed

lemma json_to_spec_Inr_iff:
  "json_to_spec py (JObj d) = Inr s \<longleftrightarrow>
     (\<exists>wc cpc wcores wmem cpcores cpmem ipst.
        py_int py (dict_get d ''worker_count'' (JInt 2)) = Inr wc \<and>
        py_int py (dict_get d ''control_plane_count'' (JInt 1)) = Inr cpc \<and>
        py_int py (dict_get d ''worker_cores'' (JInt 2)) = Inr wcores \<and>
        py_int py (dict_get d ''worker_memory_mb'' (JInt 2048)) = Inr wmem \<and>
        py_int py (dict_get d ''cp_cores'' (JInt 2)) = Inr cpcores \<and>
        py_int py (dict_get d ''cp_memory_mb'' (JInt 2048)) = Inr cpmem \<and>
        py_int py (dict_get d ''ip_start'' (JInt 201)) = Inr ipst \<and>
        finish py d (numeric_spec (set_name py d default_spec) wc cpc wcores wmem cpcores cpmem ipst) = Inr s)"
  unfolding json_to_spec_def Let_def json.case finish_def numeric_spec_def
  by (simp only: bind_err_Inr_iff ex_simps)

lemma numeric_spec_fields:
  "worker_count (numeric_spec sp wc cpc wcores wmem cpcores cpmem ipst) = wc"
  "control_plane_count (numeric_spec sp wc cpc wcores wmem cpcores cpmem ipst) = cpc"
  "cores (worker_spec (numeric_spec sp wc cpc wcores wmem cpcores cpmem ipst)) = wcores"
  "memory_mb (worker_spec (numeric_spec sp wc cpc wcores wmem cpcores cpmem ipst)) = wmem"
  "cores (control_plane_spec (numeric_spec sp wc cpc wcores wmem cpcores cpmem ipst)) = max cpcores 2"
  "memory_mb (control_plane_spec (numeric_spec sp wc cpc wcores wmem cpcores cpmem ipst)) = max cpmem 2048"
  "ip_start (numeric_spec sp wc cpc wcores wmem cpcores cpmem ipst) = ipst"
  "ip_prefix (numeric_spec sp wc cpc wcores wmem cpcores cpmem ipst) = ip_prefix sp"
  "cni_plugin (numeric_spec sp wc cpc wcores wmem cpcores cpmem ipst) = cni_plugin sp"
  "pod_network_cidr (numeric_spec sp wc cpc wcores wmem cpcores cpmem ipst) = pod_network_cidr sp"
  "k8s_version_full (numeric_spec sp wc cpc wcores wmem cpcores cpmem ipst) = k8s_version_full sp"
  by (simp_all add: numeric_spec_def)

lemma set_name_fields:
  "cni_plugin (set_name py d sp) = cni_plugin sp"
  "pod_network_cidr (set_name py d sp) = pod_network_cidr sp"
  "k8s_version_full (set_name py d sp) = k8s_version_full sp"
  "ip_prefix (set_name py d sp) = ip_prefix sp"
  by (simp_all add: set_name_def Let_def)

text \<open>What a successful run has computed.\<close>

lemma json_to_spec_numeric:
  assumes "json_to_spec py (JObj d) = Inr s"
  shows "py_int py (dict_get d ''worker_count'' (JInt 2)) = Inr (worker_count s) \<and>
         py_int py (dict_get d ''control_plane_count'' (JInt 1)) = Inr (control_plane_count s) \<and>
         py_int py (dict_get d ''worker_cores'' (JInt 2)) = Inr (cores (worker_spec s)) \<and>
         py_int py (dict_get d ''worker_memory_mb'' (JInt 2048)) = Inr (memory_mb (worker_spec s)) \<and>
         (\<exists>c. py_int py (dict_get d ''cp_cores'' (JInt 2)) = Inr c \<and>
              cores (control_plane_spec s) = max c 2) \<and>
         (\<exists>m. py_int py (dict_get d ''cp_memory_mb'' (JInt 2048)) = Inr m \<and>
              memory_mb (control_plane_spec s) = max m 2048) \<and>
         py_int py (dict_get d ''ip_start'' (JInt 201)) = Inr (ip_start s) \<and>
         tail_ok d"
proof -
  from assms obtain wc cpc wcores wmem cpcores cpmem ipst where
    p: "py_int py (dict_get d ''worker_count'' (JInt 2)) = Inr wc"
       "py_int py (dict_get d ''control_plane_count'' (JInt 1)) = Inr cpc"
       "py_int py (dict_get d ''worker_cores'' (JInt 2)) = Inr wcores"
       "py_int py (dict_get d ''worker_memory_mb'' (JInt 2048)) = Inr wmem"
       "py_int py (dict_get d ''cp_cores'' (JInt 2)) = Inr cpcores"
       "py_int py (dict_get d ''cp_memory_mb'' (JInt 2048)) = Inr cpmem"
       "py_int py (dict_get d ''ip_start'' (JInt 201)) = Inr ipst"
    and f: "finish py d (numeric_spec (set_name py d default_spec) wc cpc wcores wmem cpcores cpmem ipst) = Inr s"
    unfolding json_to_spec_Inr_iff by blast
  from finish_numeric [OF f] have
    "worker_count s = wc" "control_plane_count s = cpc" "cores (worker_spec s) = wcores"
    "memory_mb (worker_spec s) = wmem" "cores (control_plane_spec s) = max cpcores 2"
    "memory_mb (control_plane_spec s) = max cpmem 2048" "ip_start s = ipst"
    by (simp_all add: same_numeric_def numeric_spec_fields)
  moreover from f have "tail_ok d" using finish_ok by blast
  ultimately show ?thesis using p by simp
qed

lemma json_to_spec_total:
  assumes "py_int py (dict_get d ''worker_count'' (JInt 2)) = Inr wc"
    and "py_int py (dict_get d ''control_plane_count'' (JInt 1)) = Inr cpc"
    and "py_int py (dict_get d ''worker_cores'' (JInt 2)) = Inr wcores"
    and "py_int py (dict_get d ''worker_memory_mb'' (JInt 2048)) = Inr wmem"
    and "py_int py (dict_get d ''cp_cores'' (JInt 2)) = Inr cpcores"
    and "py_int py (dict_get d ''cp_memory_mb'' (JInt 2048)) = Inr cpmem"
    and "py_int py (dict_get d ''ip_start'' (JInt 201)) = Inr ipst"
    and "tail_ok d"
  shows "\<exists>s. json_to_spec py (JObj d) = Inr s"
proof -
  from \<open>tail_ok d\<close> obtain s where
    "finish py d (numeric_spec (set_name py d default_spec) wc cpc wcores wmem cpcores cpmem ipst) = Inr s"
    using finish_ok by blast
  with assms show ?thesis unfolding json_to_spec_Inr_iff by blast
qed

lemma bind_err_Inl_iff:
  "bind_err m f = Inl e \<longleftrightarrow> m = Inl e \<or> (\<exists>x. m = Inr x \<and> f x = Inl e)"
  by (cases m) (auto simp: bind_err_def)

lemma map_of_drop_keys: "map_of (drop_keys S d) k = (if k \<in> S then None else map_of d k)"
  by (induction d) (auto simp: drop_keys_def)

lemma dict_get_drop_keys:
  "dict_get (drop_keys S d) k dflt = (if k \<in> S then dflt else dict_get d k dflt)"
  by (simp add: dict_get_def map_of_drop_keys)

lemma tail_ok_drop_keys:
  assumes "S \<subseteq> set numeric_keys"
  shows "tail_ok (drop_keys S d) = tail_ok d"
proof -
  from assms have "''k8s_version'' \<notin> S" "''addons'' \<notin> S"
    by (auto simp: numeric_keys_def)
  then show ?thesis by (simp add: tail_ok_def dict_get_drop_keys)
qed

lemma json_to_spec_Inr_obj: "json_to_spec py data = Inr s \<Longrightarrow> \<exists>d. data = JObj d"
  by (cases data) (simp_all add: json_to_spec_def)

lemma set_addons_keeps:
  assumes "set_addons d s1 = Inr s"
  shows "cni_plugin s = cni_plugin s1" "pod_network_cidr s = pod_network_cidr s1"
    "k8s_version_full s = k8s_version_full s1"
  using assms by (auto simp: set_addons_def bind_err_Inr_iff split: if_splits)

lemma set_k8s_version_keeps:
  assumes "set_k8s_version py d s0 = Inr s1"
  shows "cni_plugin s1 = cni_plugin s0" "pod_network_cidr s1 = pod_network_cidr s0"
  using assms by (auto simp: set_k8s_version_def bind_err_Inr_iff Let_def split: if_splits)

lemma set_k8s_version_full:
  assumes "set_k8s_version py d s0 = Inr s1"
  shows "if truthy (dict_get d ''k8s_version'' JNull)
         then version_map_get py (dict_get d ''k8s_version'' JNull) = Inr (k8s_version_full s1)
         else k8s_version_full s1 = k8s_version_full s0"
  using assms by (auto simp: set_k8s_version_def bind_err_Inr_iff Let_def split: if_splits)

lemma set_cni_full: "k8s_version_full (set_cni d sp) = k8s_version_full sp"
  by (simp add: set_cni_def Let_def)

lemma finish_split:
  assumes "finish py d sp = Inr s"
  obtains s1 where "set_k8s_version py d (set_cni d sp) = Inr s1" "set_addons d s1 = Inr s"
  using assms by (auto simp: finish_def bind_err_Inr_iff)

lemma finish_cni:
  assumes "finish py d sp = Inr s"
  shows "cni_plugin s = cni_plugin (set_cni d sp) \<and>
         pod_network_cidr s = pod_network_cidr (set_cni d sp)"
proof -
  from assms obtain s1 where a: "set_k8s_version py d (set_cni d sp) = Inr s1"
    and b: "set_addons d s1 = Inr s" by (rule finish_split)
  show ?thesis using set_addons_keeps [OF b] set_k8s_version_keeps [OF a] by simp
qed

lemma finish_k8s:
  assumes "finish py d sp = Inr s"
  shows "if truthy (dict_get d ''k8s_version'' JNull)
         then version_map_get py (dict_get d ''k8s_version'' JNull) = Inr (k8s_version_full s)
         else k8s_version_full s = k8s_version_full sp"
proof -
  from assms obtain s1 where a: "set_k8s_version py d (set_cni d sp) = Inr s1"
    and b: "set_addons d s1 = Inr s" by (rule finish_split)
  show ?thesis using set_addons_keeps(3) [OF b] set_k8s_version_full [OF a]
    by (simp add: set_cni_full)
qed

lemma json_to_spec_parts:
  assumes "json_to_spec py (JObj d) = Inr s"
  shows "\<exists>sp. finish py d sp = Inr s \<and> cni_plugin sp = JStr ''flannel'' \<and>
              pod_network_cidr sp = ''10.244.0.0/16'' \<and> k8s_version_full sp = ''1.31.4-1.1''"
proof -
  from assms obtain wc cpc wcores wmem cpcores cpmem ipst where
    f: "finish py d (numeric_spec (set_name py d default_spec) wc cpc wcores wmem cpcores cpmem ipst) = Inr s"
    unfolding json_to_spec_Inr_iff by blast
  have "cni_plugin default_spec = JStr ''flannel''"
    "pod_network_cidr default_spec = ''10.244.0.0/16''"
    "k8s_version_full default_spec = ''1.31.4-1.1''"
    by (simp_all add: default_spec_def)
  then have "cni_plugin (numeric_spec (set_name py d default_spec) wc cpc wcores wmem cpcores cpmem ipst) = JStr ''flannel''"
    "pod_network_cidr (numeric_spec (set_name py d default_spec) wc cpc wcores wmem cpcores cpmem ipst) = ''10.244.0.0/16''"
    "k8s_version_full (numeric_spec (set_name py d default_spec) wc cpc wcores wmem cpcores cpmem ipst) = ''1.31.4-1.1''"
    by (simp_all only: numeric_spec_fields set_name_fields)
  with f show ?thesis by blast
qed

lemma py_int_error: "py_int py v = Inl e \<Longrightarrow> e = ValueError \<or> e = TypeError \<or> e = OverflowError"
  by (induction py v rule: py_int.induct) (auto split: option.splits)

lemma version_map_get_error: "version_map_get py v = Inl e \<Longrightarrow> e = TypeError"
  by (auto simp: version_map_get_def Let_def split: if_splits json.splits option.splits)

lemma py_list_error: "py_list v = Inl e \<Longrightarrow> e = TypeError"
  by (cases v) auto

lemma set_k8s_version_error: "set_k8s_version py d sp = Inl e \<Longrightarrow> e = TypeError"
  by (auto simp: set_k8s_version_def bind_err_Inl_iff Let_def split: if_splits
      dest: version_map_get_error)

lemma set_addons_error: "set_addons d sp = Inl e \<Longrightarrow> e = TypeError"
  by (auto simp: set_addons_def bind_err_Inl_iff split: if_splits dest: py_list_error)

lemma finish_error: "finish py d sp = Inl e \<Longrightarrow> e = TypeError"
  unfolding finish_def bind_err_Inl_iff
  using set_k8s_version_error set_addons_error by blast

lemma bind_err_InlE:
  assumes "bind_err m f = Inl e"
  obtains "m = Inl e" | x where "m = Inr x" "f x = Inl e"
  using assms by (auto simp: bind_err_Inl_iff)

lemma json_to_spec_error:
  assumes "json_to_spec py (JObj d) = Inl e"
  shows "e = ValueError \<or> e = TypeError \<or> e = OverflowError"
proof -
  have "json_to_spec py (JObj d) =
     bind_err (py_int py (dict_get d ''worker_count'' (JInt 2))) (\<lambda>wc.
     bind_err (py_int py (dict_get d ''control_plane_count'' (JInt 1))) (\<lambda>cpc.
     bind_err (py_int py (dict_get d ''worker_cores'' (JInt 2))) (\<lambda>wcores.
     bind_err (py_int py (dict_get d ''worker_memory_mb'' (JInt 2048))) (\<lambda>wmem.
     bind_err (py_int py (dict_get d ''cp_cores'' (JInt 2))) (\<lambda>cpcores.
     bind_err (py_int py (dict_get d ''cp_memory_mb'' (JInt 2048))) (\<lambda>cpmem.
     bind_err (py_int py (dict_get d ''ip_start'' (JInt 201))) (\<lambda>ipst.
       finish py d (numeric_spec (set_name py d default_spec) wc cpc wcores wmem cpcores cpmem ipst))))))))"
    unfolding json_to_spec_def Let_def json.case finish_def numeric_spec_def ..
  with assms have "bind_err (py_int py (dict_get d ''worker_count'' (JInt 2))) (\<lambda>wc.
     bind_err (py_int py (dict_get d ''control_plane_count'' (JInt 1))) (\<lambda>cpc.
     bind_err (py_int py (dict_get d ''worker_cores'' (JInt 2))) (\<lambda>wcores.
     bind_err (py_int py (dict_get d ''worker_memory_mb'' (JInt 2048))) (\<lambda>wmem.
     bind_err (py_int py (dict_get d ''cp_cores'' (JInt 2))) (\<lambda>cpcores.
     bind_err (py_int py (dict_get d ''cp_memory_mb'' (JInt 2048))) (\<lambda>cpmem.
     bind_err (py_int py (dict_get d ''ip_start'' (JInt 201))) (\<lambda>ipst.
       finish py d (numeric_spec (set_name py d default_spec) wc cpc wcores wmem cpcores cpmem ipst)))))))) = Inl e"
    by simp
  then show ?thesis
    by (elim bind_err_InlE) (auto dest: py_int_error finish_error)
qed

lemma json_to_spec_empty:
  "json_to_spec py (JObj []) =
     Inr (numeric_spec default_spec 2 1 2 2048 2 2048 201)"
  by (simp add: json_to_spec_def dict_get_def bind_err_def set_name_def set_cni_def
      set_k8s_version_def set_addons_def numeric_spec_def)

lemma reply_sized_resolves:
  "json_to_spec py_ref (JObj reply_sized) =
     Inr (numeric_spec default_spec 5 1 2 2048 4 2048 210)"
  by (simp add: json_to_spec_def dict_get_def bind_err_def set_name_def set_cni_def
      set_k8s_version_def set_addons_def numeric_spec_def reply_sized_def py_ref_def
      int_of_str_ref_def is_int_space_def dec_number_def is_digit_def digit_val_def)

lemma reply_small_cp_resolves:
  "json_to_spec py_ref (JObj reply_small_cp) =
     Inr (numeric_spec default_spec 2 1 2 2048 1 512 201)"
  by (simp add: json_to_spec_def dict_get_def bind_err_def set_name_def set_cni_def
      set_k8s_version_def set_addons_def numeric_spec_def reply_small_cp_def py_ref_def
      int_of_str_ref_def is_int_space_def dec_number_def is_digit_def digit_val_def)

lemma reply_calico_resolves:
  "json_to_spec py_ref (JObj reply_calico) =
     Inr ((numeric_spec default_spec 2 1 2 2048 2 2048 201)
            \<lparr> cni_plugin := JStr ''calico'', pod_network_cidr := ''192.168.0.0/16'' \<rparr>)"
  by (simp add: json_to_spec_def dict_get_def bind_err_def set_name_def set_cni_def
      set_k8s_version_def set_addons_def numeric_spec_def reply_calico_def)

lemma reply_version_resolves:
  "json_to_spec py_ref (JObj (reply_version ''1.99'')) =
     Inr ((numeric_spec default_spec 2 1 2 2048 2 2048 201)
            \<lparr> k8s_version_minor := JStr ''1.99'', k8s_version_full := ''1.99.0-1.1'' \<rparr>)"
  by (simp add: json_to_spec_def dict_get_def bind_err_def set_name_def set_cni_def
      set_k8s_version_def set_addons_def numeric_spec_def reply_version_def
      version_map_get_def version_map_def)

lemma reply_version_130:
  "map_sum id k8s_version_full (json_to_spec py_ref (JObj (reply_version ''1.30''))) =
     Inr ''1.30.8-1.1''"
  by (simp add: json_to_spec_def dict_get_def bind_err_def set_name_def set_cni_def
      set_k8s_version_def set_addons_def numeric_spec_def reply_version_def
      version_map_get_def version_map_def)

lemma dict_get_Some: "map_of d k = Some v \<Longrightarrow> dict_get d k dflt = v"
  by (simp add: dict_get_def)

lemma json_to_spec_numeric_key:
  assumes "json_to_spec py (JObj d) = Inr s" and "k \<in> set numeric_keys"
    and "map_of d k = Some v"
  shows "\<exists>n. py_int py v = Inr n"
proof -
  note n = json_to_spec_numeric [OF assms(1)]
  have 1: "\<exists>n. py_int py (dict_get d ''worker_count'' (JInt 2)) = Inr n" using n by blast
  have 2: "\<exists>n. py_int py (dict_get d ''control_plane_count'' (JInt 1)) = Inr n" using n by blast
  have 3: "\<exists>n. py_int py (dict_get d ''worker_cores'' (JInt 2)) = Inr n" using n by blast
  have 4: "\<exists>n. py_int py (dict_get d ''worker_memory_mb'' (JInt 2048)) = Inr n" using n by blast
  have 5: "\<exists>n. py_int py (dict_get d ''cp_cores'' (JInt 2)) = Inr n" using n by blast
  have 6: "\<exists>n. py_int py (dict_get d ''cp_memory_mb'' (JInt 2048)) = Inr n" using n by blast
  have 7: "\<exists>n. py_int py (dict_get d ''ip_start'' (JInt 201)) = Inr n" using n by blast
  from assms(2) have "k = ''worker_count'' \<or> k = ''control_plane_count'' \<or>
      k = ''worker_cores'' \<or> k = ''worker_memory_mb'' \<or> k = ''cp_cores'' \<or>
      k = ''cp_memory_mb'' \<or> k = ''ip_start''"
    unfolding numeric_keys_def by (simp only: list.set insert_iff empty_iff simp_thms)
  then show ?thesis
  proof (elim disjE)
    assume "k = ''worker_count''"
    with assms(3) have "dict_get d ''worker_count'' (JInt 2) = v" by (simp only: dict_get_Some)
    with 1 show ?thesis by simp
  next
    assume "k = ''control_plane_count''"
    with assms(3) have "dict_get d ''control_plane_count'' (JInt 1) = v" by (simp only: dict_get_Some)
    with 2 show ?thesis by simp
  next
    assume "k = ''worker_cores''"
    with assms(3) have "dict_get d ''worker_cores'' (JInt 2) = v" by (simp only: dict_get_Some)
    with 3 show ?thesis by simp
  next
    assume "k = ''worker_memory_mb''"
    with assms(3) have "dict_get d ''worker_memory_mb'' (JInt 2048) = v" by (simp only: dict_get_Some)
    with 4 show ?thesis by simp
  next
    assume "k = ''cp_cores''"
    with assms(3) have "dict_get d ''cp_cores'' (JInt 2) = v" by (simp only: dict_get_Some)
    with 5 show ?thesis by simp
  next
    assume "k = ''cp_memory_mb''"
    with assms(3) have "dict_get d ''cp_memory_mb'' (JInt 2048) = v" by (simp only: dict_get_Some)
    with 6 show ?thesis by simp
  next
    assume "k = ''ip_start''"
    with assms(3) have "dict_get d ''ip_start'' (JInt 201) = v" by (simp only: dict_get_Some)
    with 7 show ?thesis by simp
  qed
qed

lemma digit_val_digit_char: "d < 10 \<Longrightarrow> digit_val (digit_char d) = d"
  by (simp add: digit_val_def digit_char_def)

lemma nat_of_digits_snoc: "nat_of_digits (s @ [c]) = 10 * nat_of_digits s + digit_val c"
  by (simp add: nat_of_digits_def)

lemma nat_of_digits_str_nat: "nat_of_digits (str_nat n) = n"
proof (induction n rule: str_nat.induct)
  case (1 n)
  show ?case
  proof (cases "n < 10")
    case True
    then show ?thesis
      by (subst str_nat.simps) (simp add: nat_of_digits_def digit_val_digit_char)
  next
    case False
    with 1 have "nat_of_digits (str_nat (n div 10)) = n div 10" by simp
    with False show ?thesis
      by (subst str_nat.simps) (simp add: nat_of_digits_snoc digit_val_digit_char)
  qed
qed

lemma digit_char_not_minus: "d < 10 \<Longrightarrow> digit_char d \<noteq> CHR ''-''"
proof
  assume "d < 10" and "digit_char d = CHR ''-''"
  then have "of_char (digit_char d) = (of_char (CHR ''-'') :: nat)" by simp
  with \<open>d < 10\<close> show False by (simp add: digit_char_def)
qed

lemma str_nat_hd: "\<exists>d r. d < 10 \<and> str_nat n = digit_char d # r"
proof (induction n rule: str_nat.induct)
  case (1 n)
  show ?case
  proof (cases "n < 10")
    case True
    then show ?thesis by (subst str_nat.simps) auto
  next
    case False
    with 1 obtain d r where "d < 10" "str_nat (n div 10) = digit_char d # r" by auto
    with False show ?thesis by (subst str_nat.simps) auto
  qed
qed

lemma int_of_digits_str_int: "int_of_digits (str_int i) = i"
proof (cases "i < 0")
  case True
  then show ?thesis by (simp add: str_int_def int_of_digits_def nat_of_digits_str_nat)
next
  case False
  obtain d r where d: "d < 10" "str_nat (nat i) = digit_char d # r"
    using str_nat_hd by blast
  have "int_of_digits (str_nat (nat i)) = int (nat_of_digits (str_nat (nat i)))"
    using d digit_char_not_minus [OF d(1)] by (simp add: int_of_digits_def)
  with False show ?thesis by (simp add: str_int_def nat_of_digits_str_nat)
qed

lemma str_int_inj: "str_int a = str_int b \<Longrightarrow> a = b"
  by (metis int_of_digits_str_int)

lemma ip_inj: "p @ str_int a = p @ str_int b \<longleftrightarrow> a = b"
  using str_int_inj by auto

lemma control_plane_ips_eq:
  "control_plane_ips s =
     map (\<lambda>i. ip_prefix s @ str_int (ip_start s + int i)) [0 ..< nat (control_plane_count s)]"
  by (simp add: control_plane_ips_def py_range_def comp_def)

lemma worker_ips_eq:
  "worker_ips s =
     map (\<lambda>i. ip_prefix s @ str_int (ip_start s + control_plane_count s + int i))
       [0 ..< nat (worker_count s)]"
  by (simp add: worker_ips_def py_range_def comp_def Let_def)

lemma ips_distinct:
  "distinct (map (\<lambda>i. p @ str_int (a + int i)) [0 ..< n])"
  by (auto simp: distinct_map inj_on_def dest: str_int_inj)

lemma upt_split: "[0 ..< c + w] = [0 ..< c] @ map (\<lambda>i. c + i) [0 ..< w]"
  by (induction w) simp_all

lemma all_ips_contiguous:
  assumes "0 \<le> control_plane_count s" and "0 \<le> worker_count s"
  shows "all_ips s =
     map (\<lambda>i. ip_prefix s @ str_int (ip_start s + int i))
       [0 ..< nat (control_plane_count s + worker_count s)]"
proof -
  define c w where "c = nat (control_plane_count s)" and "w = nat (worker_count s)"
  have cc: "control_plane_count s = int c" and ww: "worker_count s = int w"
    using assms by (simp_all add: c_def w_def)
  have n: "nat (control_plane_count s + worker_count s) = c + w"
    unfolding cc ww by (simp only: nat_int of_nat_add [symmetric])
  have "map (\<lambda>i. ip_prefix s @ str_int (ip_start s + int i)) (map (\<lambda>i. c + i) [0 ..< w]) =
        map (\<lambda>i. ip_prefix s @ str_int (ip_start s + int c + int i)) [0 ..< w]"
    by (simp only: map_map comp_def of_nat_add add.assoc)
  then have "map (\<lambda>i. ip_prefix s @ str_int (ip_start s + int i)) [0 ..< c + w] =
        map (\<lambda>i. ip_prefix s @ str_int (ip_start s + int i)) [0 ..< c] @
        map (\<lambda>i. ip_prefix s @ str_int (ip_start s + int c + int i)) [0 ..< w]"
    by (simp only: upt_split map_append)
  then show ?thesis
    unfolding all_ips_def control_plane_ips_eq worker_ips_eq n
    unfolding cc ww by (simp only: nat_int)
qed

lemma default_spec_ips:
  "control_plane_ips default_spec = [''10.40.19.201'']"
  "worker_ips default_spec = [''10.40.19.202'', ''10.40.19.203'']"
  by code_simp+

lemma takeWhile_neq_less: "c \<in> set s \<Longrightarrow> length (takeWhile (\<lambda>x. x \<noteq> c) s) < length s"
  by (induction s) auto

lemma py_find_nonneg: "c \<in> set s \<Longrightarrow> 0 \<le> py_find c s \<and> py_find c s < int (length s)"
proof -
  assume "c \<in> set s"
  then have "length (takeWhile (\<lambda>x. x \<noteq> c) s) < length s"
    by (rule takeWhile_neq_less)
  with \<open>c \<in> set s\<close> show ?thesis by (simp add: py_find_def)
qed

lemma py_find_none: "c \<notin> set s \<Longrightarrow> py_find c s = - 1"
  by (simp add: py_find_def)

lemma py_rfind_none: "c \<notin> set s \<Longrightarrow> py_rfind c s = - 1"
  by (simp add: py_rfind_def)

lemma py_rfind_nonneg: "c \<in> set s \<Longrightarrow> 0 \<le> py_rfind c s \<and> py_rfind c s < int (length s)"
proof -
  assume "c \<in> set s"
  then have "c \<in> set (rev s)" by simp
  then have "length (takeWhile (\<lambda>x. x \<noteq> c) (rev s)) < length (rev s)"
    by (rule takeWhile_neq_less)
  with \<open>c \<in> set s\<close> show ?thesis by (simp add: py_rfind_def)
qed

lemma py_find_embed:
  assumes "c \<notin> set p" and "c \<in> set u"
  shows "py_find c (p @ u @ q) = int (length p) + py_find c u"
proof -
  have "takeWhile (\<lambda>x. x \<noteq> c) (p @ u @ q) = p @ takeWhile (\<lambda>x. x \<noteq> c) (u @ q)"
    using assms(1) by (intro takeWhile_append2) auto
  moreover have "takeWhile (\<lambda>x. x \<noteq> c) (u @ q) = takeWhile (\<lambda>x. x \<noteq> c) u"
    using assms(2) by (intro takeWhile_append1 [of c]) auto
  ultimately show ?thesis using assms(2) by (simp add: py_find_def)
qed

lemma py_rfind_embed:
  assumes "c \<notin> set q" and "c \<in> set u"
  shows "py_rfind c (p @ u @ q) = int (length p) + py_rfind c u"
proof -
  have "takeWhile (\<lambda>x. x \<noteq> c) (rev q @ rev u @ rev p) = rev q @ takeWhile (\<lambda>x. x \<noteq> c) (rev u @ rev p)"
    using assms(1) by (intro takeWhile_append2) auto
  moreover have "takeWhile (\<lambda>x. x \<noteq> c) (rev u @ rev p) = takeWhile (\<lambda>x. x \<noteq> c) (rev u)"
    using assms(2) by (intro takeWhile_append1 [of c]) auto
  moreover have "length (takeWhile (\<lambda>x. x \<noteq> c) (rev u)) < length u"
    using py_rfind_nonneg [OF assms(2)] assms(2) by (simp add: py_rfind_def)
  ultimately show ?thesis using assms(2) by (simp add: py_rfind_def)
qed

lemma py_slice_embed:
  assumes "0 \<le> a" and "b \<le> int (length u)"
  shows "py_slice (p @ u @ q) (int (length p) + a) (int (length p) + b) = py_slice u a b"
proof -
  have "drop (nat (int (length p) + a)) (p @ u @ q) = drop (nat a) (u @ q)"
    using assms(1) by (simp add: nat_add_distrib)
  moreover have "take (nat (b - a)) (drop (nat a) (u @ q)) = take (nat (b - a)) (drop (nat a) u)"
    using assms by (cases "nat a \<le> length u") auto
  ultimately show ?thesis by (simp add: py_slice_def)
qed

lemma brace_span_embed:
  assumes "brace_free p" and "brace_free q"
  shows "brace_span (p @ u @ q) = brace_span u"
proof (cases "CHR ''{'' \<in> set u \<and> CHR ''}'' \<in> set u")
  case True
  then have o: "CHR ''{'' \<in> set u" and c: "CHR ''}'' \<in> set u" by simp_all
  have f: "py_find CHR ''{'' (p @ u @ q) = int (length p) + py_find CHR ''{'' u"
    using assms o by (intro py_find_embed) (simp_all add: brace_free_def)
  have r: "py_rfind CHR ''}'' (p @ u @ q) = int (length p) + py_rfind CHR ''}'' u"
    using assms c by (intro py_rfind_embed) (simp_all add: brace_free_def)
  note fo = py_find_nonneg [OF o] and rc = py_rfind_nonneg [OF c]
  have "py_slice (p @ u @ q) (int (length p) + py_find CHR ''{'' u)
          (int (length p) + (py_rfind CHR ''}'' u + 1)) =
        py_slice u (py_find CHR ''{'' u) (py_rfind CHR ''}'' u + 1)"
    using fo rc by (intro py_slice_embed) simp_all
  then show ?thesis
    using fo rc by (simp add: brace_span_def f r Let_def add.assoc)
next
  case False
  then have "CHR ''{'' \<notin> set (p @ u @ q) \<or> CHR ''}'' \<notin> set (p @ u @ q)"
    using assms by (auto simp: brace_free_def)
  then have "brace_span (p @ u @ q) = None"
    by (auto simp: brace_span_def Let_def py_find_none py_rfind_none)
  moreover from False have "brace_span u = None"
    by (auto simp: brace_span_def Let_def py_find_none py_rfind_none)
  ultimately show ?thesis by simp
qed

lemma trims_brace_span: "trims t u \<Longrightarrow> brace_span t = brace_span u"
  by (auto simp: trims_def brace_span_embed)

lemma brace_free_simps:
  "brace_free []" "brace_free (x @ y) \<longleftrightarrow> brace_free x \<and> brace_free y"
  "brace_free (c # x) \<longleftrightarrow> c \<noteq> CHR ''{'' \<and> c \<noteq> CHR ''}'' \<and> brace_free x"
  "brace_free (rev x) \<longleftrightarrow> brace_free x"
  by (auto simp: brace_free_def)

lemma brace_free_fence: "brace_free fence"
  by (simp add: brace_free_def fence_def)

lemma space_not_brace: "is_space c \<Longrightarrow> c \<noteq> CHR ''{'' \<and> c \<noteq> CHR ''}''"
  by (auto simp: is_space_def)

lemma word_not_brace: "is_word c \<Longrightarrow> c \<noteq> CHR ''{'' \<and> c \<noteq> CHR ''}''"
  by (auto simp: is_word_def)

lemma brace_free_spaces: "list_all is_space x \<Longrightarrow> brace_free x"
  by (induction x) (auto simp: brace_free_simps dest: space_not_brace)

lemma brace_free_takeWhile_space: "brace_free (takeWhile is_space x)"
  by (induction x) (auto simp: brace_free_simps dest: space_not_brace)

lemma brace_free_takeWhile_word: "brace_free (takeWhile is_word x)"
  by (induction x) (auto simp: brace_free_simps dest: word_not_brace)

lemma trims_refl: "trims t t"
  unfolding trims_def by (intro exI [of _ "[]"]) (simp add: brace_free_simps)

lemma trims_trans:
  assumes "trims t u" and "trims u v"
  shows "trims t v"
proof -
  from assms obtain p q p' q' where "t = p @ u @ q" "brace_free p" "brace_free q"
    "u = p' @ v @ q'" "brace_free p'" "brace_free q'"
    unfolding trims_def by blast
  then have "t = (p @ p') @ v @ (q' @ q)" "brace_free (p @ p')" "brace_free (q' @ q)"
    by (simp_all add: brace_free_simps)
  then show ?thesis unfolding trims_def by blast
qed

lemma trims_dropWhile_space: "trims t (dropWhile is_space t)"
proof -
  have "t = takeWhile is_space t @ dropWhile is_space t @ []" by simp
  then show ?thesis
    unfolding trims_def using brace_free_takeWhile_space brace_free_simps(1) by blast
qed

lemma trims_dropWhile_word: "trims t (dropWhile is_word t)"
proof -
  have "t = takeWhile is_word t @ dropWhile is_word t @ []" by simp
  then show ?thesis
    unfolding trims_def using brace_free_takeWhile_word brace_free_simps(1) by blast
qed

lemma trims_rstrip: "trims t (rev (dropWhile is_space (rev t)))"
proof -
  have "rev t = takeWhile is_space (rev t) @ dropWhile is_space (rev t)" by simp
  then have "rev (rev t) = rev (takeWhile is_space (rev t) @ dropWhile is_space (rev t))"
    by (simp only:)
  then have "t = [] @ rev (dropWhile is_space (rev t)) @ rev (takeWhile is_space (rev t))"
    by (simp only: rev_rev_ident rev_append append_Nil)
  moreover have "brace_free (rev (takeWhile is_space (rev t)))"
    by (simp add: brace_free_simps brace_free_takeWhile_space)
  ultimately show ?thesis
    unfolding trims_def using brace_free_simps(1) by blast
qed

lemma trims_strip: "trims t (strip t)"
  unfolding strip_def
  by (rule trims_trans [OF trims_dropWhile_space trims_rstrip])

lemma startswith_fence: "startswith t fence \<longleftrightarrow> take 3 t = fence"
  by (simp add: startswith_def fence_def numeral_3_eq_3)

lemma trims_drop_fence: "startswith t fence \<Longrightarrow> trims t (drop 3 t)"
proof -
  assume "startswith t fence"
  then have "take 3 t = fence" by (simp only: startswith_fence)
  then have "t = fence @ drop 3 t @ []" by (metis append_take_drop_id append_Nil2)
  then show ?thesis
    unfolding trims_def using brace_free_fence brace_free_simps(1) by blast
qed

lemma trims_sub_open_fence: "trims t (sub_open_fence t)"
proof (cases "startswith t fence")
  case True
  have "trims t (dropWhile is_space (dropWhile is_word (drop 3 t)))"
    by (rule trims_trans [OF trims_drop_fence [OF True]
        trims_trans [OF trims_dropWhile_word trims_dropWhile_space]])
  with True show ?thesis by (simp add: sub_open_fence_def)
next
  case False
  then show ?thesis by (simp add: sub_open_fence_def trims_refl)
qed

lemma brace_free_fence_tail: "fence_tail r \<Longrightarrow> brace_free r"
proof -
  assume "fence_tail r"
  then have a: "take 3 r = fence" and b: "list_all is_space (drop 3 r)"
    by (simp_all only: fence_tail_def startswith_fence)
  have "r = take 3 r @ drop 3 r" by simp
  then have "brace_free r = brace_free (fence @ drop 3 r)" using a by simp
  then show ?thesis using brace_free_fence brace_free_spaces [OF b]
    by (simp add: brace_free_simps)
qed

lemma brace_free_matches_close: "matches_close s \<Longrightarrow> brace_free s"
  by (cases s) (auto simp: matches_close_def brace_free_simps dest: brace_free_fence_tail)

lemma sub_close_fence_suffix: "\<exists>q. s = sub_close_fence s @ q \<and> brace_free q"
proof (induction s)
  case Nil
  show ?case by (simp add: brace_free_simps)
next
  case (Cons c cs)
  show ?case
  proof (cases "matches_close (c # cs)")
    case True
    then show ?thesis using brace_free_matches_close by auto
  next
    case False
    with Cons show ?thesis by auto
  qed
qed

lemma trims_sub_close_fence: "trims t (sub_close_fence t)"
proof -
  from sub_close_fence_suffix obtain q where "t = sub_close_fence t @ q" "brace_free q" by blast
  then have "t = [] @ sub_close_fence t @ q" by simp
  then show ?thesis
    unfolding trims_def using \<open>brace_free q\<close> brace_free_simps(1) by blast
qed

lemma trims_unfenced: "trims t (unfenced t)"
proof (cases "startswith (strip t) fence")
  case True
  have "trims t (strip (sub_close_fence (sub_open_fence (strip t))))"
    by (rule trims_trans [OF trims_strip
        trims_trans [OF trims_sub_open_fence trims_trans [OF trims_sub_close_fence trims_strip]]])
  with True show ?thesis by (simp add: unfenced_def Let_def)
next
  case False
  then show ?thesis by (simp add: unfenced_def Let_def trims_strip)
qed

lemma extract_json_from_response_span:
  "extract_json_from_response py text =
     (case brace_span text of
        None \<Rightarrow> Inl ValueError
      | Some sp \<Rightarrow> (case loads py sp of None \<Rightarrow> Inl JSONDecodeError | Some v \<Rightarrow> Inr v))"
proof -
  have "brace_span (unfenced text) = brace_span text"
    using trims_brace_span [OF trims_unfenced] by simp
  then show ?thesis
    by (auto simp: extract_json_from_response_def brace_span_def Let_def split: if_splits)
qed

lemma trims_fenced:
  assumes "brace_free lang"
  shows "trims (fenced lang closing t) t"
proof -
  have "fenced lang closing t =
          (fence @ lang @ [CHR 0x0A]) @ t @ (if closing then CHR 0x0A # fence else [])"
    by (simp add: fenced_def)
  moreover have "brace_free (fence @ lang @ [CHR 0x0A])"
    using assms by (simp add: brace_free_simps brace_free_fence)
  moreover have "brace_free (if closing then CHR 0x0A # fence else [])"
    by (simp add: brace_free_simps brace_free_fence)
  ultimately show ?thesis unfolding trims_def by blast
qed

lemma extract_fenced:
  assumes "brace_free lang"
  shows "extract_json_from_response py (fenced lang closing t) = extract_json_from_response py t"
  by (simp only: extract_json_from_response_span trims_brace_span [OF trims_fenced [OF assms]])

lemma reply_workers_extracted:
  "extract_json_from_response py_ref reply_workers = Inr (JObj [(''worker_count'', JInt 3)])"
  by (simp add: extract_json_from_response_def unfenced_def strip_def startswith_def fence_def
      is_space_def py_find_def py_rfind_def py_slice_def reply_workers_def py_ref_def loads_ref_def
      Let_def)

lemma fenced_reply_workers_unfenced:
  "unfenced (fenced ''json'' True reply_workers) = reply_workers"
  by (simp add: unfenced_def strip_def startswith_def fence_def fenced_def sub_open_fence_def
      matches_close_def fence_tail_def is_space_def is_word_def reply_workers_def Let_def)

lemma extract_no_object:
  "no_object py text \<longleftrightarrow>
     (\<exists>e. extract_json_from_response py text = Inl e)"
  by (auto simp: no_object_def extract_json_from_response_span split: option.splits)

lemma extract_error_kind:
  "extract_json_from_response py text = Inl e \<Longrightarrow> is_ValueError e"
  by (auto simp: extract_json_from_response_span is_ValueError_def split: option.splits)

lemma prompt_ok_bind:
  "prompt_ok env \<Longrightarrow>
     bind_err (case prompt_text env of None \<Rightarrow> Inr [] | Some r \<Rightarrow> r) f =
     f (case prompt_text env of Some (Inr t) \<Rightarrow> t | _ \<Rightarrow> [])"
  by (auto simp: prompt_ok_def bind_err_def split: option.splits sum.splits)

lemma parse_intent_unavailable:
  "\<not> ollama_is_available py env \<Longrightarrow> parse_intent py env = Inl OllamaError"
  by (simp add: parse_intent_def)

lemma parse_intent_no_object:
  assumes "ollama_is_available py env" and "prompt_ok env"
    and "ollama_chat py env = Inr (JStr text)" and "no_object py text"
  shows "\<exists>e. parse_intent py env = Inl e \<and> is_ValueError e"
proof -
  from assms(4) obtain e where e: "extract_json_from_response py text = Inl e"
    unfolding extract_no_object by blast
  have "parse_intent py env = Inl e"
    unfolding parse_intent_def prompt_ok_bind [OF assms(2)]
    using assms(1,3) e by (simp add: bind_err_def)
  with extract_error_kind [OF e] show ?thesis by blast
qed

lemma parse_intent_resolved:
  assumes "parse_intent py env = Inr r"
  shows "\<exists>text. ollama_chat py env = Inr (JStr text) \<and>
                extract_json_from_response py text = Inr (llm_raw r) \<and>
                json_to_spec py (llm_raw r) = Inr (r_spec r)"
proof -
  from assms have av: "ollama_is_available py env"
    by (auto simp: parse_intent_def split: if_splits)
  with assms obtain response data sp where
    c: "ollama_chat py env = Inr response"
    and x: "(case response of JStr text \<Rightarrow> extract_json_from_response py text
              | _ \<Rightarrow> Inl AttributeError) = Inr data"
    and j: "json_to_spec py data = Inr sp"
    and r: "(case data of
               JObj d \<Rightarrow> Inr \<lparr> r_spec = sp, llm_reasoning = dict_get d ''reasoning'' (JStr []),
                              llm_raw = data \<rparr>
             | _ \<Rightarrow> Inl AttributeError) = Inr r"
    by (auto simp: parse_intent_def bind_err_Inr_iff)
  from x obtain reply where t: "response = JStr reply"
    "extract_json_from_response py reply = Inr data"
    by (cases response) auto
  from j obtain d where d: "data = JObj d" using json_to_spec_Inr_obj by blast
  with r have "llm_raw r = data" "r_spec r = sp" by auto
  with c t j show ?thesis by auto
qed

lemma loads_ref_simps:
  "loads_ref ''{}'' = Some (JObj [])"
  "loads_ref ''<html>'' = None"
  "loads_ref chat_body_nan = Some (JObj [(''message'', JObj [(''content'', JStr reply_nan)])])"
  "loads_ref chat_body_prose =
     Some (JObj [(''message'', JObj [(''content'', JStr ''I cannot size this cluster.'')])])"
  "loads_ref reply_nan = Some (JObj [(''worker_count'', JFloat NaN)])"
  by (simp_all add: loads_ref_def reply_workers_def reply_nan_def chat_body_nan_def
      chat_body_prose_def)

lemma env_available:
  "\<not> ollama_is_available py_ref env_down"
  "ollama_is_available py_ref env_prose"
  "ollama_is_available py_ref env_nan"
  "ollama_is_available py_ref env_html"
  by (simp_all add: ollama_is_available_def ollama_get_def env_down_def env_prose_def
      env_nan_def env_html_def py_ref_def loads_ref_simps)

lemma env_chat:
  "ollama_chat py_ref env_prose = Inr (JStr ''I cannot size this cluster.'')"
  "ollama_chat py_ref env_nan = Inr (JStr reply_nan)"
  "ollama_chat py_ref env_html = Inl OllamaError"
  by (simp_all add: ollama_chat_def ollama_post_def env_prose_def env_nan_def env_html_def
      py_ref_def loads_ref_simps bind_err_def)

lemma prose_no_object: "no_object py_ref ''I cannot size this cluster.''"
  by (simp add: no_object_def brace_span_def py_find_def Let_def)

lemma reply_nan_extracted:
  "extract_json_from_response py_ref reply_nan = Inr (JObj [(''worker_count'', JFloat NaN)])"
proof -
  have "brace_span reply_nan = Some reply_nan"
    by (simp add: brace_span_def py_find_def py_rfind_def py_slice_def reply_nan_def Let_def)
  then show ?thesis
    by (simp add: extract_json_from_response_span py_ref_def loads_ref_simps)
qed

lemma parse_intent_nan: "parse_intent py_ref env_nan = Inl ValueError"
proof -
  have "json_to_spec py_ref (JObj [(''worker_count'', JFloat NaN)]) = Inl ValueError"
    by (simp add: json_to_spec_def dict_get_def bind_err_def)
  then show ?thesis
    using env_available(3) env_chat(2) reply_nan_extracted
    by (simp add: parse_intent_def bind_err_def env_nan_def)
qed

lemma parse_intent_html: "parse_intent py_ref env_html = Inl OllamaError"
  using env_available(4) env_chat(3)
  by (simp add: parse_intent_def bind_err_def env_html_def)

lemma extends_refl: "extends st tr tr"
  by (simp add: extends_def)

lemma extends_trans: "extends st a b \<Longrightarrow> extends st b c \<Longrightarrow> extends st a c"
  by (auto simp: extends_def)

lemma run_result:
  assumes "run env cmd cwd st dry_run tr = (r, tr')"
  shows "stage r = st \<and> extends st tr tr'"
  using assms
  by (auto simp: run_def Let_def extends_def split: if_splits proc_outcome.splits)

lemma run_packer_result:
  "run_packer env dry_run tr = (r, tr') \<Longrightarrow> stage r = PACKER \<and> extends PACKER tr tr'"
  unfolding run_packer_def by (rule run_result)

lemma run_ansible_result:
  "run_ansible env spec dry_run tr = (r, tr') \<Longrightarrow> stage r = ANSIBLE \<and> extends ANSIBLE tr tr'"
  unfolding run_ansible_def by (rule run_result)

lemma run_addons_result:
  "run_addons env spec dry_run tr = (r, tr') \<Longrightarrow> stage r = ADDONS \<and> extends ADDONS tr tr'"
  unfolding run_addons_def
  by (auto simp: extends_refl split: if_splits dest: run_result)

lemma run_terraform_result:
  assumes "run_terraform env dry_run auto_approve tr = (r, tr')"
  shows "stage r = TERRAFORM \<and> extends TERRAFORM tr tr'"
proof -
  obtain r1 t1 where 1: "run env [''terraform'', ''init''] ''terraform'' TERRAFORM dry_run tr = (r1, t1)"
    by fastforce
  obtain r2 t2 where 2: "run env [''terraform'', ''plan'', ''-out=tfplan''] ''terraform'' TERRAFORM dry_run t1 = (r2, t2)"
    by fastforce
  obtain r3 t3 where 3: "run env ([''terraform'', ''apply''] @
        (if auto_approve then [''-auto-approve''] else []) @ [''tfplan'']) ''terraform'' TERRAFORM dry_run t2 = (r3, t3)"
    by fastforce
  note a = run_result [OF 1] and b = run_result [OF 2] and c = run_result [OF 3]
  have "(r, tr') = (r1, t1) \<or> (r, tr') = (r2, t2) \<or> (r, tr') = (r3, t3)"
    using assms unfolding run_terraform_def Let_def 1 2 3 prod.case
    by (auto split: if_splits)
  then show ?thesis
    using a b c extends_trans by blast
qed

lemma trace_within_Nil: "trace_within S []"
  by (simp add: trace_within_def)

lemma trace_within_extends:
  assumes "extends st tr tr'" and "trace_within S tr" and "st \<in> S"
  shows "trace_within S tr'"
proof -
  from assms(1) obtain new where n: "tr' = tr @ new" "list_all (event_of st) new"
    unfolding extends_def by blast
  have "list_all (\<lambda>ev. case ev of Executed s cmd cwd \<Rightarrow> s \<in> S | Slept n \<Rightarrow> ANSIBLE \<in> S) new"
    using n(2) assms(3)
    by (induction new) (auto split: event.splits)
  with assms(2) n(1) show ?thesis by (simp add: trace_within_def)
qed

lemma trace_within_slept:
  "trace_within S tr \<Longrightarrow> ANSIBLE \<in> S \<Longrightarrow> trace_within S (tr @ [Slept n])"
  by (simp add: trace_within_def)

text \<open>The five ways a run that is not a dry run ends.\<close>

lemma run_pipeline_cases:
  assumes "run_pipeline env spec skip_packer auto_approve False = (results, tr)"
  obtains
    (packer_failed) rp where "\<not> skip_packer" "results = [rp]" "stage rp = PACKER"
      "\<not> success rp" "trace_within {PACKER} tr"
  | (terraform_failed) r0 rt where "results = r0 @ [rt]"
      "map stage r0 = (if skip_packer then [] else [PACKER])" "list_all success r0"
      "stage rt = TERRAFORM" "\<not> success rt" "trace_within (set (map stage r0) \<union> {TERRAFORM}) tr"
  | (ansible_failed) r0 rt ra where "results = r0 @ [rt, ra]"
      "map stage r0 = (if skip_packer then [] else [PACKER])" "list_all success r0"
      "stage rt = TERRAFORM" "success rt" "stage ra = ANSIBLE" "\<not> success ra"
      "trace_within (set (map stage r0) \<union> {TERRAFORM, ANSIBLE}) tr"
  | (no_addons) r0 rt ra where "results = r0 @ [rt, ra]"
      "map stage r0 = (if skip_packer then [] else [PACKER])" "list_all success r0"
      "stage rt = TERRAFORM" "success rt" "stage ra = ANSIBLE" "success ra" "addons spec = []"
      "trace_within (set (map stage r0) \<union> {TERRAFORM, ANSIBLE}) tr"
  | (with_addons) r0 rt ra rd where "results = r0 @ [rt, ra, rd]"
      "map stage r0 = (if skip_packer then [] else [PACKER])" "list_all success r0"
      "stage rt = TERRAFORM" "success rt" "stage ra = ANSIBLE" "success ra" "addons spec \<noteq> []"
      "stage rd = ADDONS" "trace_within (set (map stage r0) \<union> {TERRAFORM, ANSIBLE, ADDONS}) tr"
proof -
  obtain rp tp where P: "run_packer env False [] = (rp, tp)" by fastforce
  define r0 where "r0 = (if skip_packer then [] else [rp])"
  define t0 where "t0 = (if skip_packer then [] else tp)"
  obtain rt tt where T: "run_terraform env False auto_approve t0 = (rt, tt)" by fastforce
  obtain ra ta where A: "run_ansible env spec False (tt @ [Slept 60]) = (ra, ta)" by fastforce
  obtain rd td where D: "run_addons env spec False ta = (rd, td)" by fastforce
  note p = run_packer_result [OF P] and t = run_terraform_result [OF T]
    and a = run_ansible_result [OF A] and d = run_addons_result [OF D]
  have m0: "map stage r0 = (if skip_packer then [] else [PACKER])"
    using p by (simp add: r0_def)
  have w0: "trace_within S t0" if "set (map stage r0) \<subseteq> S" for S
  proof (cases skip_packer)
    case True
    then show ?thesis by (simp add: t0_def trace_within_Nil)
  next
    case False
    with that m0 have "PACKER \<in> S" by simp
    with p False show ?thesis
      using trace_within_extends [OF _ trace_within_Nil] by (auto simp: t0_def)
  qed
  have wt: "trace_within S tt" if "set (map stage r0) \<subseteq> S" "TERRAFORM \<in> S" for S
    using trace_within_extends [OF _ w0 [OF that(1)] that(2)] t by blast
  have wa: "trace_within S ta" if "set (map stage r0) \<subseteq> S" "TERRAFORM \<in> S" "ANSIBLE \<in> S" for S
    using trace_within_extends [OF _ trace_within_slept [OF wt [OF that(1,2)] that(3)] that(3)] a
    by blast
  have wd: "trace_within S td"
    if "set (map stage r0) \<subseteq> S" "TERRAFORM \<in> S" "ANSIBLE \<in> S" "ADDONS \<in> S" for S
    using trace_within_extends [OF _ wa [OF that(1,2,3)] that(4)] d by blast
  have res: "(results, tr) =
      (if \<not> skip_packer \<and> \<not> success rp then ([rp], tp)
       else if \<not> success rt then (r0 @ [rt], tt)
       else if \<not> success ra then (r0 @ [rt, ra], ta)
       else if addons spec \<noteq> [] then (r0 @ [rt, ra, rd], td)
       else (r0 @ [rt, ra], ta))"
    using assms P T A D unfolding run_pipeline_def r0_def t0_def
    by (auto simp: Let_def split: if_splits)
  show thesis
  proof (cases "\<not> skip_packer \<and> \<not> success rp")
    case True
    with res have "results = [rp]" "tr = tp" by auto
    moreover have "trace_within {PACKER} tp"
      using trace_within_extends [OF _ trace_within_Nil] p by blast
    ultimately show thesis using True p by (intro packer_failed [of rp]) simp_all
  next
    case F1: False
    then have s0: "list_all success r0" by (auto simp: r0_def)
    show thesis
    proof (cases "success rt")
      case False
      with F1 res have "results = r0 @ [rt]" "tr = tt" by auto
      then show thesis
        using m0 s0 t False wt [of "set (map stage r0) \<union> {TERRAFORM}"]
        by (intro terraform_failed [of r0 rt]) simp_all
    next
      case T2: True
      show thesis
      proof (cases "success ra")
        case False
        with F1 T2 res have "results = r0 @ [rt, ra]" "tr = ta" by auto
        then show thesis
          using m0 s0 t a T2 False wa [of "set (map stage r0) \<union> {TERRAFORM, ANSIBLE}"]
          by (intro ansible_failed [of r0 rt ra]) simp_all
      next
        case T3: True
        show thesis
        proof (cases "addons spec = []")
          case True
          with F1 T2 T3 res have "results = r0 @ [rt, ra]" "tr = ta" by auto
          then show thesis
            using m0 s0 t a T2 T3 True wa [of "set (map stage r0) \<union> {TERRAFORM, ANSIBLE}"]
            by (intro no_addons [of r0 rt ra]) simp_all
        next
          case False
          with F1 T2 T3 res have "results = r0 @ [rt, ra, rd]" "tr = td" by auto
          then show thesis
            using m0 s0 t a d T2 T3 False
              wd [of "set (map stage r0) \<union> {TERRAFORM, ANSIBLE, ADDONS}"]
            by (intro with_addons [of r0 rt ra rd]) simp_all
        qed
      qed
    qed
  qed
qed

lemma first_results:
  assumes "map stage r0 = (if skip_packer then [] else [PACKER])"
  shows "(skip_packer \<and> r0 = []) \<or> (\<not> skip_packer \<and> (\<exists>rp. r0 = [rp] \<and> stage rp = PACKER))"
  using assms by (cases skip_packer) auto

lemma pipeline_nonempty:
  assumes "run_pipeline env spec skip_packer auto_approve False = (results, tr)"
  shows "results \<noteq> []"
  using assms by (cases rule: run_pipeline_cases) simp_all

lemma pipeline_butlast:
  assumes "run_pipeline env spec skip_packer auto_approve False = (results, tr)"
  shows "list_all success (butlast results)"
  using assms by (cases rule: run_pipeline_cases) (simp_all add: butlast_append)

lemma pipeline_prefix:
  assumes "run_pipeline env spec skip_packer auto_approve False = (results, tr)"
  shows "take (length results) (planned skip_packer spec) = map stage results"
  using assms
proof (cases rule: run_pipeline_cases)
  case (packer_failed rp)
  then show ?thesis by (simp add: planned_def)
next
  case (terraform_failed r0 rt)
  from first_results [OF terraform_failed(2)] show ?thesis
    by (elim disjE conjE exE) (simp_all add: planned_def terraform_failed)
next
  case (ansible_failed r0 rt ra)
  from first_results [OF ansible_failed(2)] show ?thesis
    by (elim disjE conjE exE) (simp_all add: planned_def ansible_failed)
next
  case (no_addons r0 rt ra)
  from first_results [OF no_addons(2)] show ?thesis
    by (elim disjE conjE exE) (simp_all add: planned_def no_addons)
next
  case (with_addons r0 rt ra rd)
  from first_results [OF with_addons(2)] show ?thesis
    by (elim disjE conjE exE) (simp_all add: planned_def with_addons)
qed

lemma pipeline_complete:
  assumes "run_pipeline env spec skip_packer auto_approve False = (results, tr)"
    and "list_all success results"
  shows "map stage results = planned skip_packer spec"
  using assms
proof (cases rule: run_pipeline_cases)
  case (no_addons r0 rt ra)
  then show ?thesis by (simp add: planned_def)
next
  case (with_addons r0 rt ra rd)
  then show ?thesis by (simp add: planned_def)
qed simp_all

lemma pipeline_trace:
  assumes "run_pipeline env spec skip_packer auto_approve False = (results, tr)"
  shows "trace_within (set (map stage results)) tr"
  using assms
proof (cases rule: run_pipeline_cases)
  case (packer_failed rp)
  then show ?thesis by simp
next
  case (terraform_failed r0 rt)
  then show ?thesis by (simp add: Un_commute)
next
  case (ansible_failed r0 rt ra)
  have "set (map stage (r0 @ [rt, ra])) = set (map stage r0) \<union> {TERRAFORM, ANSIBLE}"
    using ansible_failed(4,6) by auto
  with ansible_failed(1,8) show ?thesis by (simp only:)
next
  case (no_addons r0 rt ra)
  have "set (map stage (r0 @ [rt, ra])) = set (map stage r0) \<union> {TERRAFORM, ANSIBLE}"
    using no_addons(4,6) by auto
  with no_addons(1,9) show ?thesis by (simp only:)
next
  case (with_addons r0 rt ra rd)
  have "set (map stage (r0 @ [rt, ra, rd])) = set (map stage r0) \<union> {TERRAFORM, ANSIBLE, ADDONS}"
    using with_addons(4,6,9) by auto
  with with_addons(1,10) show ?thesis by (simp only:)
qed

lemma failed_is_last:
  assumes "list_all success (butlast xs)" and "k < length xs" and "\<not> success (xs ! k)"
  shows "length xs = Suc k"
proof (rule ccontr)
  assume "length xs \<noteq> Suc k"
  with assms(2) have k: "k < length (butlast xs)" by simp
  then have "butlast xs ! k = xs ! k" by (simp add: nth_butlast)
  moreover from assms(1) k have "success (butlast xs ! k)" by (simp add: list_all_length)
  ultimately show False using assms(3) by simp
qed

lemma planned_four:
  "length (planned skip_packer spec) = 4 \<Longrightarrow>
     planned skip_packer spec = [PACKER, TERRAFORM, ANSIBLE, ADDONS]"
  by (auto simp: planned_def split: if_splits)

lemma run_success:
  assumes "run env cmd cwd st False tr = (r, tr')"
  shows "success r = exited_ok env cmd cwd"
  using assms
  by (auto simp: run_def Let_def exited_ok_def split: if_splits proc_outcome.splits)

lemma run_packer_success:
  "run_packer env False tr = (r, tr') \<Longrightarrow> success r = stage_ok env auto_approve PACKER"
  unfolding run_packer_def by (simp add: run_success)

lemma run_ansible_success:
  "run_ansible env spec False tr = (r, tr') \<Longrightarrow> success r = stage_ok env auto_approve ANSIBLE"
  unfolding run_ansible_def by (simp add: run_success)

lemma run_addons_success:
  "run_addons env spec False tr = (r, tr') \<Longrightarrow> success r = stage_ok env auto_approve ADDONS"
  unfolding run_addons_def by (auto simp: run_success split: if_splits)

lemma run_terraform_success:
  assumes "run_terraform env False auto_approve tr = (r, tr')"
  shows "success r = stage_ok env auto_approve TERRAFORM"
proof -
  obtain r1 t1 where 1: "run env [''terraform'', ''init''] ''terraform'' TERRAFORM False tr = (r1, t1)"
    by fastforce
  obtain r2 t2 where 2: "run env [''terraform'', ''plan'', ''-out=tfplan''] ''terraform'' TERRAFORM False t1 = (r2, t2)"
    by fastforce
  obtain r3 t3 where 3: "run env ([''terraform'', ''apply''] @
        (if auto_approve then [''-auto-approve''] else []) @ [''tfplan'']) ''terraform'' TERRAFORM False t2 = (r3, t3)"
    by fastforce
  note a = run_success [OF 1] and b = run_success [OF 2] and c = run_success [OF 3]
  have "(r, tr') = (if \<not> success r1 then (r1, t1) else if \<not> success r2 then (r2, t2) else (r3, t3))"
    using assms unfolding run_terraform_def Let_def 1 2 3 prod.case
    by (auto split: if_splits)
  then show ?thesis
    using a b c by (auto split: if_splits)
qed

lemma run_pipeline_results:
  assumes P: "run_packer env False [] = (rp, tp)"
    and T: "run_terraform env False auto_approve (if skip_packer then [] else tp) = (rt, tt)"
    and A: "run_ansible env spec False (tt @ [Slept 60]) = (ra, ta)"
    and D: "run_addons env spec False ta = (rd, td)"
  shows "fst (run_pipeline env spec skip_packer auto_approve False) =
      (if \<not> skip_packer \<and> \<not> success rp then [rp]
       else (if skip_packer then [] else [rp]) @
         (if \<not> success rt then [rt]
          else if \<not> success ra then [rt, ra]
          else if addons spec \<noteq> [] then [rt, ra, rd]
          else [rt, ra]))"
  using P T A D unfolding run_pipeline_def
  by (auto simp: Let_def split: if_splits)

lemma pipeline_flags:
  assumes "run_pipeline env spec skip_packer auto_approve False = (results, tr)"
  shows "list_all (\<lambda>r. success r = stage_ok env auto_approve (stage r)) results \<and>
         map stage results = upto_failure (stage_ok env auto_approve) (planned skip_packer spec)"
proof -
  obtain rp tp where P: "run_packer env False [] = (rp, tp)" by fastforce
  obtain rt tt where T: "run_terraform env False auto_approve (if skip_packer then [] else tp) = (rt, tt)"
    by fastforce
  obtain ra ta where A: "run_ansible env spec False (tt @ [Slept 60]) = (ra, ta)" by fastforce
  obtain rd td where D: "run_addons env spec False ta = (rd, td)" by fastforce
  have st: "stage rp = PACKER" "stage rt = TERRAFORM" "stage ra = ANSIBLE" "stage rd = ADDONS"
    using run_packer_result [OF P] run_terraform_result [OF T] run_ansible_result [OF A]
      run_addons_result [OF D] by simp_all
  have ok: "success rp = stage_ok env auto_approve PACKER"
    "success rt = stage_ok env auto_approve TERRAFORM"
    "success ra = stage_ok env auto_approve ANSIBLE"
    "success rd = stage_ok env auto_approve ADDONS"
    using run_packer_success [OF P] run_terraform_success [OF T] run_ansible_success [OF A]
      run_addons_success [OF D] by blast+
  have res: "results =
      (if \<not> skip_packer \<and> \<not> success rp then [rp]
       else (if skip_packer then [] else [rp]) @
         (if \<not> success rt then [rt]
          else if \<not> success ra then [rt, ra]
          else if addons spec \<noteq> [] then [rt, ra, rd]
          else [rt, ra]))"
    using run_pipeline_results [OF P T A D] assms by simp
  have 1: "list_all (\<lambda>r. success r = stage_ok env auto_approve (stage r)) results"
    unfolding res using st ok by simp
  have 2: "map stage results = upto_failure (stage_ok env auto_approve) (planned skip_packer spec)"
    unfolding res planned_def using st ok by simp
  from 1 2 show ?thesis by blast
qed

lemma no_terraform_run:
  "run_pipeline env_no_terraform spec_with_addon True False False =
     ([\<lparr> stage = TERRAFORM, success = False, duration_s = 0,
         message = CommandNotFound ''terraform'' \<rparr>],
      [Executed TERRAFORM [''terraform'', ''init''] ''terraform''])"
  by (simp add: run_pipeline_def run_terraform_def run_def env_no_terraform_def command_name_def
      Let_def)

lemma init_fails_run:
  "run_pipeline env_init_fails spec_with_addon False False False =
     ([\<lparr> stage = PACKER, success = True, duration_s = 0, message = CompletedIn 0 \<rparr>,
       \<lparr> stage = TERRAFORM, success = False, duration_s = 0, message = FailedExitCode 1 \<rparr>],
      [Executed PACKER [''packer'', ''build'', ''-force'', ''.''] ''packer'',
       Executed TERRAFORM [''terraform'', ''init''] ''terraform''])"
  by (simp add: run_pipeline_def run_packer_def run_terraform_def run_def env_init_fails_def
      Let_def)

lemma except_pass_Inr: "\<exists>x. except_pass m dflt = Inr x"
  by (cases m) (simp_all add: except_pass_def)

lemma except_pass_eq:
  "except_pass m dflt = Inr (case m of Inl e \<Rightarrow> dflt | Inr x \<Rightarrow> x)"
  by (cases m) (simp_all add: except_pass_def)

lemma used_ips_foldl:
  "foldl (\<lambda>c vm. c\<lparr> used_ips := used_ips c @ ips vm \<rparr>) ctx vms =
     ctx\<lparr> used_ips := used_ips ctx @ concat (map ips vms) \<rparr>"
  by (induction vms arbitrary: ctx) simp_all

lemma discover_eq:
  "discover py fl api node =
     Inr \<lparr> node_name = node,
           resources = (case get_node_resources fl api node of
                          Inl e \<Rightarrow> default_resources | Inr r \<Rightarrow> r),
           existing_vms = (case get_vms py fl api node of Inl e \<Rightarrow> [] | Inr vms \<Rightarrow> vms),
           used_ips = concat (map ips (case get_vms py fl api node of
                                         Inl e \<Rightarrow> [] | Inr vms \<Rightarrow> vms)) \<rparr>"
  by (cases "get_node_resources fl api node"; cases "get_vms py fl api node")
    (simp_all add: discover_def Let_def except_pass_def bind_err_def used_ips_foldl)

lemma vm_record_ips: "vm_record py fl entry = Inr r \<Longrightarrow> ips r = []"
  by (auto simp: vm_record_def bind_err_Inr_iff)

lemma vm_of_entry_ips:
  assumes "vm_of_entry py fl api node entry = Inr (Some vm)"
  shows "guest_ips_ok py api node vm"
proof -
  from assms obtain template where
    t: "\<not> py_eq_int template 1"
    and b: "bind_err (vm_record py fl entry) (\<lambda>vm.
             bind_err (if status vm = JStr ''running''
                       then except_pass (get_vm_ips py api node (vmid vm)) (ips vm)
                       else Inr (ips vm))
               (\<lambda>found. Inr (Some (vm\<lparr> ips := found \<rparr>)))) = Inr (Some vm)"
    unfolding vm_of_entry_def bind_err_Inr_iff [of "py_get entry ''template'' (JInt 0)"]
    by (auto split: if_splits)
  from b obtain r where r: "vm_record py fl entry = Inr r"
    and c: "bind_err (if status r = JStr ''running''
                      then except_pass (get_vm_ips py api node (vmid r)) (ips r)
                      else Inr (ips r))
              (\<lambda>found. Inr (Some (r\<lparr> ips := found \<rparr>))) = Inr (Some vm)"
    unfolding bind_err_Inr_iff [of "vm_record py fl entry"] by blast
  from c obtain found where
    f: "(if status r = JStr ''running''
         then except_pass (get_vm_ips py api node (vmid r)) (ips r)
         else Inr (ips r)) = Inr found"
    and v: "vm = r\<lparr> ips := found \<rparr>"
    unfolding bind_err_Inr_iff by auto
  note e = vm_record_ips [OF r]
  have "found = (if status r = JStr ''running''
                 then (case get_vm_ips py api node (vmid r) of Inl e \<Rightarrow> [] | Inr x \<Rightarrow> x)
                 else [])"
    using f e by (cases "status r = JStr ''running''") (simp_all add: except_pass_eq)
  then show ?thesis unfolding v by (simp add: guest_ips_ok_def)
qed

lemma vms_of_entries_ips:
  assumes "vms_of_entries py fl api node entries acc = Inr vms"
    and "list_all (guest_ips_ok py api node) acc"
  shows "list_all (guest_ips_ok py api node) vms"
  using assms
proof (induction entries arbitrary: acc)
  case Nil
  then show ?case by simp
next
  case (Cons entry entries)
  from Cons.prems(1) obtain r where r: "vm_of_entry py fl api node entry = Inr r"
    and rest: "vms_of_entries py fl api node entries
                 (case r of None \<Rightarrow> acc | Some vm \<Rightarrow> acc @ [vm]) = Inr vms"
    by (auto simp: bind_err_Inr_iff)
  have "list_all (guest_ips_ok py api node) (case r of None \<Rightarrow> acc | Some vm \<Rightarrow> acc @ [vm])"
    using Cons.prems(2) r vm_of_entry_ips by (cases r) auto
  with Cons.IH rest show ?case by blast
qed

lemma get_vms_ips:
  assumes "get_vms py fl api node = Inr vms"
  shows "list_all (guest_ips_ok py api node) vms"
proof -
  from assms obtain entries where "vms_of_entries py fl api node entries [] = Inr vms"
    by (auto simp: get_vms_def bind_err_Inr_iff)
  then show ?thesis using vms_of_entries_ips by fastforce
qed

lemma bind_except_pass:
  "bind_err (except_pass m dflt) f = f (case m of Inl e \<Rightarrow> dflt | Inr x \<Rightarrow> x)"
  by (simp add: except_pass_eq bind_err_def)

lemma vm_of_entry_factor:
  "map_sum id (map_option no_ips) (vm_of_entry py fl api node entry) =
     bind_err (py_get entry ''template'' (JInt 0)) (\<lambda>template.
       if py_eq_int template 1 then Inr None
       else bind_err (vm_record py fl entry) (\<lambda>vm. Inr (Some (no_ips vm))))"
proof (cases "py_get entry ''template'' (JInt 0)")
  case (Inl e)
  then show ?thesis by (simp add: vm_of_entry_def bind_err_def)
next
  case (Inr template)
  show ?thesis
  proof (cases "vm_record py fl entry")
    case (Inl e)
    with Inr show ?thesis by (simp add: vm_of_entry_def bind_err_def)
  next
    case r: (Inr vm)
    with Inr show ?thesis
      by (simp add: vm_of_entry_def bind_err_def except_pass_eq no_ips_def)
  qed
qed

lemma vm_of_entry_no_ips:
  "map_sum id (map_option no_ips) (vm_of_entry py fl api node entry) =
   map_sum id (map_option no_ips) (vm_of_entry py fl api' node entry)"
  by (simp only: vm_of_entry_factor)

lemma vms_of_entries_no_ips:
  assumes "map no_ips acc = map no_ips acc'"
  shows "map_sum id (map no_ips) (vms_of_entries py fl api node entries acc) =
         map_sum id (map no_ips) (vms_of_entries py fl api' node entries acc')"
  using assms
proof (induction entries arbitrary: acc acc')
  case Nil
  then show ?case by simp
next
  case (Cons entry entries)
  note f = vm_of_entry_no_ips [of py fl api node entry api']
  show ?case
  proof (cases "vm_of_entry py fl api node entry")
    case (Inl e)
    with f have "vm_of_entry py fl api' node entry = Inl e"
      by (cases "vm_of_entry py fl api' node entry") simp_all
    with Inl show ?thesis by (simp add: bind_err_def)
  next
    case (Inr r)
    with f obtain r' where r': "vm_of_entry py fl api' node entry = Inr r'"
      "map_option no_ips r = map_option no_ips r'"
      by (cases "vm_of_entry py fl api' node entry") simp_all
    have "map no_ips (case r of None \<Rightarrow> acc | Some vm \<Rightarrow> acc @ [vm]) =
          map no_ips (case r' of None \<Rightarrow> acc' | Some vm \<Rightarrow> acc' @ [vm])"
      using r'(2) Cons.prems by (cases r; cases r') simp_all
    from Cons.IH [OF this] Inr r'(1) show ?thesis by (simp add: bind_err_def)
  qed
qed

lemma get_vms_no_ips:
  assumes "api (''/nodes/'' @ node @ ''/qemu'') = api' (''/nodes/'' @ node @ ''/qemu'')"
  shows "map_sum id (map no_ips) (get_vms py fl api node) =
         map_sum id (map no_ips) (get_vms py fl api' node)"
proof (cases "bind_err (api' (''/nodes/'' @ node @ ''/qemu''))
               (\<lambda>data. bind_err (py_get data ''data'' (JList [])) py_list)")
  case (Inl e)
  then show ?thesis
    using assms by (auto simp: get_vms_def bind_err_def split: sum.splits)
next
  case (Inr entries)
  then have "get_vms py fl api node = vms_of_entries py fl api node entries []"
    "get_vms py fl api' node = vms_of_entries py fl api' node entries []"
    using assms by (auto simp: get_vms_def bind_err_def split: sum.splits)
  then show ?thesis using vms_of_entries_no_ips [of "[]" "[]"] by simp
qed

lemma discover_agent_down:
  "discover py_ref float_ops_ref api_agent_down ''pve1'' =
     Inr \<lparr> node_name = ''pve1'', resources = default_resources,
           existing_vms = [guest_101, guest_102], used_ips = [] \<rparr>"
  by code_simp

lemma get_vms_agent_up:
  "get_vms py_ref float_ops_ref api_agent_up ''pve1'' =
     Inr [guest_101 \<lparr> ips := [''10.40.19.201''] \<rparr>, guest_102]"
  by code_simp

lemma get_vms_agent_down:
  "get_vms py_ref float_ops_ref api_agent_down ''pve1'' = Inr [guest_101, guest_102]"
  by code_simp

section \<open>The claims\<close>

text \<open>
  C1, as amended. Take any reply that \<open>_json_to_spec\<close> resolves, and leave out any subset
  \<open>S\<close> of its numeric fields: the reply still resolves, each field left out has its default
  in the spec (workers 2, control planes 1, 2 cores and 2048 MB for both roles, \<open>ip_start\<close>
  201), and each field kept has the value it had. In particular the empty object resolves
  to exactly these defaults.
\<close>

theorem missing_numeric_fields_default:
  assumes "json_to_spec py (JObj d) = Inr s" and "S \<subseteq> set numeric_keys"
  shows "(\<exists>s'. json_to_spec py (JObj (drop_keys S d)) = Inr s' \<and>
            worker_count s' = (if ''worker_count'' \<in> S then 2 else worker_count s) \<and>
            control_plane_count s' =
              (if ''control_plane_count'' \<in> S then 1 else control_plane_count s) \<and>
            cores (worker_spec s') = (if ''worker_cores'' \<in> S then 2 else cores (worker_spec s)) \<and>
            memory_mb (worker_spec s') =
              (if ''worker_memory_mb'' \<in> S then 2048 else memory_mb (worker_spec s)) \<and>
            cores (control_plane_spec s') =
              (if ''cp_cores'' \<in> S then 2 else cores (control_plane_spec s)) \<and>
            memory_mb (control_plane_spec s') =
              (if ''cp_memory_mb'' \<in> S then 2048 else memory_mb (control_plane_spec s)) \<and>
            ip_start s' = (if ''ip_start'' \<in> S then 201 else ip_start s)) \<and>
         (\<exists>s0. json_to_spec py (JObj []) = Inr s0 \<and>
            worker_count s0 = 2 \<and> control_plane_count s0 = 1 \<and>
            cores (worker_spec s0) = 2 \<and> memory_mb (worker_spec s0) = 2048 \<and>
            cores (control_plane_spec s0) = 2 \<and> memory_mb (control_plane_spec s0) = 2048 \<and>
            ip_start s0 = 201)"
proof
  let ?d = "drop_keys S d"
  note n = json_to_spec_numeric [OF assms(1)]
  from n obtain c where c: "py_int py (dict_get d ''cp_cores'' (JInt 2)) = Inr c"
    "cores (control_plane_spec s) = max c 2" by blast
  from n obtain m where m: "py_int py (dict_get d ''cp_memory_mb'' (JInt 2048)) = Inr m"
    "memory_mb (control_plane_spec s) = max m 2048" by blast
  have 1: "py_int py (dict_get ?d ''worker_count'' (JInt 2)) =
             Inr (if ''worker_count'' \<in> S then 2 else worker_count s)"
    using n by (simp add: dict_get_drop_keys)
  have 2: "py_int py (dict_get ?d ''control_plane_count'' (JInt 1)) =
             Inr (if ''control_plane_count'' \<in> S then 1 else control_plane_count s)"
    using n by (simp add: dict_get_drop_keys)
  have 3: "py_int py (dict_get ?d ''worker_cores'' (JInt 2)) =
             Inr (if ''worker_cores'' \<in> S then 2 else cores (worker_spec s))"
    using n by (simp add: dict_get_drop_keys)
  have 4: "py_int py (dict_get ?d ''worker_memory_mb'' (JInt 2048)) =
             Inr (if ''worker_memory_mb'' \<in> S then 2048 else memory_mb (worker_spec s))"
    using n by (simp add: dict_get_drop_keys)
  have 5: "py_int py (dict_get ?d ''cp_cores'' (JInt 2)) = Inr (if ''cp_cores'' \<in> S then 2 else c)"
    using c by (simp add: dict_get_drop_keys)
  have 6: "py_int py (dict_get ?d ''cp_memory_mb'' (JInt 2048)) =
             Inr (if ''cp_memory_mb'' \<in> S then 2048 else m)"
    using m by (simp add: dict_get_drop_keys)
  have 7: "py_int py (dict_get ?d ''ip_start'' (JInt 201)) =
             Inr (if ''ip_start'' \<in> S then 201 else ip_start s)"
    using n by (simp add: dict_get_drop_keys)
  have ok: "tail_ok ?d" using n tail_ok_drop_keys [OF assms(2)] by simp
  from json_to_spec_total [OF 1 2 3 4 5 6 7 ok]
  obtain s' where s': "json_to_spec py (JObj ?d) = Inr s'" by blast
  note n' = json_to_spec_numeric [OF s']
  have "worker_count s' = (if ''worker_count'' \<in> S then 2 else worker_count s)"
    using n' 1 by simp
  moreover have "control_plane_count s' =
      (if ''control_plane_count'' \<in> S then 1 else control_plane_count s)"
    using n' 2 by simp
  moreover have "cores (worker_spec s') = (if ''worker_cores'' \<in> S then 2 else cores (worker_spec s))"
    using n' 3 by simp
  moreover have "memory_mb (worker_spec s') =
      (if ''worker_memory_mb'' \<in> S then 2048 else memory_mb (worker_spec s))"
    using n' 4 by simp
  moreover have "cores (control_plane_spec s') =
      (if ''cp_cores'' \<in> S then 2 else cores (control_plane_spec s))"
    using n' 5 c(2) by auto
  moreover have "memory_mb (control_plane_spec s') =
      (if ''cp_memory_mb'' \<in> S then 2048 else memory_mb (control_plane_spec s))"
    using n' 6 m(2) by auto
  moreover have "ip_start s' = (if ''ip_start'' \<in> S then 201 else ip_start s)"
    using n' 7 by simp
  ultimately show "\<exists>s'. json_to_spec py (JObj ?d) = Inr s' \<and>
            worker_count s' = (if ''worker_count'' \<in> S then 2 else worker_count s) \<and>
            control_plane_count s' =
              (if ''control_plane_count'' \<in> S then 1 else control_plane_count s) \<and>
            cores (worker_spec s') = (if ''worker_cores'' \<in> S then 2 else cores (worker_spec s)) \<and>
            memory_mb (worker_spec s') =
              (if ''worker_memory_mb'' \<in> S then 2048 else memory_mb (worker_spec s)) \<and>
            cores (control_plane_spec s') =
              (if ''cp_cores'' \<in> S then 2 else cores (control_plane_spec s)) \<and>
            memory_mb (control_plane_spec s') =
              (if ''cp_memory_mb'' \<in> S then 2048 else memory_mb (control_plane_spec s)) \<and>
            ip_start s' = (if ''ip_start'' \<in> S then 201 else ip_start s)"
    using s' by blast
next
  show "\<exists>s0. json_to_spec py (JObj []) = Inr s0 \<and>
            worker_count s0 = 2 \<and> control_plane_count s0 = 1 \<and>
            cores (worker_spec s0) = 2 \<and> memory_mb (worker_spec s0) = 2048 \<and>
            cores (control_plane_spec s0) = 2 \<and> memory_mb (control_plane_spec s0) = 2048 \<and>
            ip_start s0 = 201"
    by (simp add: json_to_spec_empty numeric_spec_fields)
qed

theorem missing_numeric_fields_default_witness:
  "(\<exists>s. json_to_spec py_ref (JObj reply_sized) = Inr s \<and> cores (control_plane_spec s) = 4) \<and>
   {''cp_cores'', ''ip_start''} \<subseteq> set numeric_keys \<and>
   (\<exists>s'. json_to_spec py_ref (JObj (drop_keys {''cp_cores'', ''ip_start''} reply_sized)) = Inr s' \<and>
      worker_count s' = 5 \<and> cores (control_plane_spec s') = 2 \<and> ip_start s' = 201)"
proof -
  have S: "{''cp_cores'', ''ip_start''} \<subseteq> set numeric_keys"
    by (simp add: numeric_keys_def)
  have f: "cores (control_plane_spec (numeric_spec default_spec 5 1 2 2048 4 2048 210)) = 4"
    "worker_count (numeric_spec default_spec 5 1 2 2048 4 2048 210) = 5"
    by (simp_all add: numeric_spec_fields)
  from missing_numeric_fields_default [OF reply_sized_resolves S] f S reply_sized_resolves
  show ?thesis by auto
qed

text \<open>
  The claim as stated fails: a reply that misses numeric fields need not resolve at all.
  The object \<open>{"worker_count": null}\<close> misses six of the seven numeric fields and
  \<open>{"addons": 5}\<close> misses all seven, and for both \<open>_json_to_spec\<close> raises a \<open>TypeError\<close>
  (from \<open>int(None)\<close> and from \<open>list(5)\<close>) and yields no spec.
\<close>

theorem missing_numeric_fields_counterexample:
  "json_to_spec py_ref (JObj [(''worker_count'', JNull)]) = Inl TypeError \<and>
   filter (\<lambda>k. map_of [(''worker_count'', JNull)] k = None) numeric_keys =
     [''control_plane_count'', ''worker_cores'', ''worker_memory_mb'', ''cp_cores'',
      ''cp_memory_mb'', ''ip_start''] \<and>
   json_to_spec py_ref (JObj [(''addons'', JInt 5)]) = Inl TypeError \<and>
   filter (\<lambda>k. map_of [(''addons'', JInt 5)] k = None) numeric_keys = numeric_keys"
proof -
  have a: "json_to_spec py_ref (JObj [(''worker_count'', JNull)]) = Inl TypeError"
    by (simp add: json_to_spec_def dict_get_def bind_err_def)
  have b: "filter (\<lambda>k. map_of [(''worker_count'', JNull)] k = None) numeric_keys =
     [''control_plane_count'', ''worker_cores'', ''worker_memory_mb'', ''cp_cores'',
      ''cp_memory_mb'', ''ip_start'']"
    by (simp add: numeric_keys_def)
  have c: "json_to_spec py_ref (JObj [(''addons'', JInt 5)]) = Inl TypeError"
    by (simp add: json_to_spec_def dict_get_def bind_err_def set_name_def set_cni_def
        set_k8s_version_def set_addons_def default_spec_def)
  have d: "filter (\<lambda>k. map_of [(''addons'', JInt 5)] k = None) numeric_keys = numeric_keys"
    by (simp add: numeric_keys_def)
  from a b c d show ?thesis by (simp only: simp_thms)
qed

text \<open>
  C2. Whenever \<open>_json_to_spec\<close> returns a spec, its control-plane cores are
  \<open>max(int(cp_cores), 2)\<close>, with 2 for an absent \<open>cp_cores\<close>, and its control-plane
  memory is \<open>max(int(cp_memory_mb), 2048)\<close>, with 2048 for an absent \<open>cp_memory_mb\<close>; so
  the cores are never below 2 and the memory never below 2048, whatever the reply holds.
\<close>

theorem control_plane_floor:
  assumes "json_to_spec py data = Inr s"
  shows "2 \<le> cores (control_plane_spec s) \<and> 2048 \<le> memory_mb (control_plane_spec s) \<and>
         (\<exists>d. data = JObj d \<and>
            (case map_of d ''cp_cores'' of
               None \<Rightarrow> cores (control_plane_spec s) = max 2 2
             | Some v \<Rightarrow> \<exists>c. py_int py v = Inr c \<and> cores (control_plane_spec s) = max c 2) \<and>
            (case map_of d ''cp_memory_mb'' of
               None \<Rightarrow> memory_mb (control_plane_spec s) = max 2048 2048
             | Some v \<Rightarrow> \<exists>m. py_int py v = Inr m \<and>
                          memory_mb (control_plane_spec s) = max m 2048))"
proof -
  from assms obtain d where d: "data = JObj d" using json_to_spec_Inr_obj by blast
  note n = json_to_spec_numeric [OF assms [unfolded d]]
  from n obtain c where c: "py_int py (dict_get d ''cp_cores'' (JInt 2)) = Inr c"
    "cores (control_plane_spec s) = max c 2" by blast
  from n obtain m where m: "py_int py (dict_get d ''cp_memory_mb'' (JInt 2048)) = Inr m"
    "memory_mb (control_plane_spec s) = max m 2048" by blast
  have "case map_of d ''cp_cores'' of
               None \<Rightarrow> cores (control_plane_spec s) = max 2 2
             | Some v \<Rightarrow> \<exists>c. py_int py v = Inr c \<and> cores (control_plane_spec s) = max c 2"
    using c by (auto simp: dict_get_def split: option.splits)
  moreover have "case map_of d ''cp_memory_mb'' of
               None \<Rightarrow> memory_mb (control_plane_spec s) = max 2048 2048
             | Some v \<Rightarrow> \<exists>m. py_int py v = Inr m \<and>
                          memory_mb (control_plane_spec s) = max m 2048"
    using m by (auto simp: dict_get_def split: option.splits)
  moreover have "2 \<le> cores (control_plane_spec s)" "2048 \<le> memory_mb (control_plane_spec s)"
    using c(2) m(2) by simp_all
  ultimately show ?thesis using d by blast
qed

theorem control_plane_floor_witness:
  "(\<exists>s. json_to_spec py_ref (JObj reply_small_cp) = Inr s \<and>
        cores (control_plane_spec s) = 2 \<and> memory_mb (control_plane_spec s) = 2048)"
proof -
  have "cores (control_plane_spec (numeric_spec default_spec 2 1 2 2048 1 512 201)) = 2"
    "memory_mb (control_plane_spec (numeric_spec default_spec 2 1 2 2048 1 512 201)) = 2048"
    by (simp_all add: numeric_spec_fields)
  with control_plane_floor [OF reply_small_cp_resolves] reply_small_cp_resolves
  show ?thesis by simp
qed

text \<open>
  C4, as amended. Whenever \<open>_json_to_spec\<close> returns a spec: a \<open>cni_plugin\<close> equal to
  \<open>"calico"\<close> is stored and sets \<open>pod_network_cidr\<close> to \<open>"192.168.0.0/16"\<close>; any other
  value that is true in Python (a non-empty string, recognised or not) is stored as it is,
  with \<open>pod_network_cidr\<close> left at \<open>"10.244.0.0/16"\<close>; an absent, empty or otherwise false
  value leaves both the default plugin \<open>"flannel"\<close> and the default CIDR.
\<close>

theorem cni_plugin_resolution:
  assumes "json_to_spec py (JObj d) = Inr s"
  shows "case map_of d ''cni_plugin'' of
           None \<Rightarrow> cni_plugin s = JStr ''flannel'' \<and> pod_network_cidr s = ''10.244.0.0/16''
         | Some v \<Rightarrow>
             if \<not> truthy v
               then cni_plugin s = JStr ''flannel'' \<and> pod_network_cidr s = ''10.244.0.0/16''
             else if v = JStr ''calico''
               then cni_plugin s = JStr ''calico'' \<and> pod_network_cidr s = ''192.168.0.0/16''
             else cni_plugin s = v \<and> pod_network_cidr s = ''10.244.0.0/16''"
proof -
  from json_to_spec_parts [OF assms] obtain sp where
    f: "finish py d sp = Inr s" and sp: "cni_plugin sp = JStr ''flannel''"
      "pod_network_cidr sp = ''10.244.0.0/16''" by blast
  from finish_cni [OF f] sp show ?thesis
    by (auto simp: set_cni_def dict_get_def Let_def split: option.splits)
qed

theorem cni_plugin_resolution_witness:
  "\<exists>s. json_to_spec py_ref (JObj reply_calico) = Inr s \<and>
       cni_plugin s = JStr ''calico'' \<and> pod_network_cidr s = ''192.168.0.0/16''"
  using cni_plugin_resolution [OF reply_calico_resolves] reply_calico_resolves
  by (simp add: reply_calico_def)

text \<open>
  The claim as stated fails: an unrecognised plugin does not leave the model's default
  \<open>"flannel"\<close> in place, it is stored.
\<close>

theorem cni_plugin_unrecognised_counterexample:
  "map_sum id cni_plugin (json_to_spec py_ref (JObj reply_weave)) = Inr (JStr ''weave'') \<and>
   JStr ''weave'' \<noteq> cni_plugin default_spec"
  by (simp add: json_to_spec_def dict_get_def bind_err_def set_name_def set_cni_def
      set_k8s_version_def set_addons_def reply_weave_def default_spec_def)

text \<open>
  C5, as amended. Whenever \<open>_json_to_spec\<close> returns a spec: a \<open>k8s_version\<close> that is a
  non-empty string gives the \<open>k8s_version_full\<close> of the table for 1.31, 1.30, 1.29 and
  1.28, and the minor followed by \<open>.0-1.1\<close> for any other string; an absent, empty or
  otherwise false \<open>k8s_version\<close> leaves the default \<open>"1.31.4-1.1"\<close>.
\<close>

theorem k8s_version_resolution:
  assumes "json_to_spec py (JObj d) = Inr s"
  shows "case map_of d ''k8s_version'' of
           None \<Rightarrow> k8s_version_full s = ''1.31.4-1.1''
         | Some v \<Rightarrow>
             if \<not> truthy v then k8s_version_full s = ''1.31.4-1.1''
             else (case v of
                     JStr m \<Rightarrow>
                       k8s_version_full s =
                         (if m = ''1.31'' then ''1.31.4-1.1''
                          else if m = ''1.30'' then ''1.30.8-1.1''
                          else if m = ''1.29'' then ''1.29.12-1.1''
                          else if m = ''1.28'' then ''1.28.15-1.1''
                          else m @ ''.0-1.1'')
                   | _ \<Rightarrow> k8s_version_full s = py_format py v @ ''.0-1.1'')"
proof -
  from json_to_spec_parts [OF assms] obtain sp where
    f: "finish py d sp = Inr s" and sp: "k8s_version_full sp = ''1.31.4-1.1''" by blast
  from finish_k8s [OF f] sp show ?thesis
    by (auto simp: dict_get_def version_map_get_def version_map_def Let_def
        split: option.splits if_splits json.splits)
qed

theorem k8s_version_resolution_witness:
  "\<exists>s. json_to_spec py_ref (JObj (reply_version ''1.99'')) = Inr s \<and>
       k8s_version_full s = ''1.99.0-1.1''"
  using k8s_version_resolution [OF reply_version_resolves] reply_version_resolves
  by (simp add: reply_version_def)

text \<open>
  The claim as stated fails: a reply whose \<open>k8s_version\<close> is the empty string contains a
  value that is not in the table, and \<open>k8s_version_full\<close> is not that value followed by
  \<open>.0-1.1\<close> but the default.
\<close>

theorem k8s_version_empty_counterexample:
  "map_sum id k8s_version_full (json_to_spec py_ref (JObj (reply_version ''''))) =
     Inr ''1.31.4-1.1'' \<and>
   ''1.31.4-1.1'' \<noteq> '''' @ ''.0-1.1''"
  by (simp add: json_to_spec_def dict_get_def bind_err_def set_name_def set_cni_def
      set_k8s_version_def set_addons_def reply_version_def default_spec_def)

text \<open>
  C10, as amended. When the reply holds a numeric field whose value \<open>int\<close> rejects,
  \<open>_json_to_spec\<close> returns no spec: it raises \<open>ValueError\<close>, \<open>TypeError\<close> or
  \<open>OverflowError\<close>, and the default of the field is not used. \<open>int\<close> rejects \<open>null\<close>, a
  list and a dict with \<open>TypeError\<close>, a string it cannot read and a NaN with
  \<open>ValueError\<close>, and an infinite float with \<open>OverflowError\<close>.
\<close>

theorem uncoercible_numeric_field_raises:
  assumes "k \<in> set numeric_keys" and "map_of d k = Some v" and "py_int py v = Inl e"
  shows "(\<exists>e'. json_to_spec py (JObj d) = Inl e' \<and>
               (e' = ValueError \<or> e' = TypeError \<or> e' = OverflowError)) \<and>
         py_int py JNull = Inl TypeError \<and>
         py_int py (JFloat NaN) = Inl ValueError \<and>
         py_int py (JFloat PosInf) = Inl OverflowError \<and>
         (case v of JStr t \<Rightarrow> int_of_str py t = None \<and> e = ValueError | _ \<Rightarrow> True)"
proof -
  have no: "json_to_spec py (JObj d) \<noteq> Inr s" for s
  proof
    assume "json_to_spec py (JObj d) = Inr s"
    from json_to_spec_numeric_key [OF this assms(1,2)] assms(3) show False by auto
  qed
  then obtain e' where e': "json_to_spec py (JObj d) = Inl e'"
    by (cases "json_to_spec py (JObj d)") auto
  from json_to_spec_error [OF e'] e'
  have "\<exists>e'. json_to_spec py (JObj d) = Inl e' \<and>
               (e' = ValueError \<or> e' = TypeError \<or> e' = OverflowError)" by blast
  moreover have "case v of JStr t \<Rightarrow> int_of_str py t = None \<and> e = ValueError | _ \<Rightarrow> True"
    using assms(3) by (cases v) (auto split: option.splits)
  ultimately show ?thesis by simp
qed

theorem uncoercible_numeric_field_raises_witness:
  "''worker_count'' \<in> set numeric_keys \<and>
   map_of (reply_workers_of (JStr ''three'')) ''worker_count'' = Some (JStr ''three'') \<and>
   py_int py_ref (JStr ''three'') = Inl ValueError \<and>
   json_to_spec py_ref (JObj (reply_workers_of (JStr ''three''))) = Inl ValueError \<and>
   json_to_spec py_ref (JObj (reply_workers_of JNull)) = Inl TypeError"
proof -
  have a: "''worker_count'' \<in> set numeric_keys" by (simp add: numeric_keys_def)
  have b: "map_of (reply_workers_of (JStr ''three'')) ''worker_count'' = Some (JStr ''three'')"
    by (simp add: reply_workers_of_def)
  have c: "py_int py_ref (JStr ''three'') = Inl ValueError"
    by (simp add: py_ref_def int_of_str_ref_def is_int_space_def dec_number_def is_digit_def)
  have d: "json_to_spec py_ref (JObj (reply_workers_of (JStr ''three''))) = Inl ValueError"
    using c by (simp add: json_to_spec_def dict_get_def bind_err_def reply_workers_of_def)
  have e: "json_to_spec py_ref (JObj (reply_workers_of JNull)) = Inl TypeError"
    by (simp add: json_to_spec_def dict_get_def bind_err_def reply_workers_of_def)
  from uncoercible_numeric_field_raises [OF a b c] a b c d e show ?thesis by simp
qed

text \<open>
  The claim as stated fails: an infinite float (\<open>json.loads\<close> reads \<open>Infinity\<close> and
  \<open>1e999\<close> as one) is a value \<open>int\<close> rejects, and the exception is neither a
  \<open>ValueError\<close> nor a \<open>TypeError\<close>.
\<close>

theorem uncoercible_infinite_counterexample:
  "json_to_spec py_ref (JObj (reply_workers_of (JFloat PosInf))) = Inl OverflowError \<and>
   OverflowError \<noteq> ValueError \<and> OverflowError \<noteq> JSONDecodeError \<and> OverflowError \<noteq> TypeError"
  by (simp add: json_to_spec_def dict_get_def bind_err_def reply_workers_of_def)

text \<open>
  C3. For a spec whose two counts are not negative: \<open>control_plane_ips\<close> has
  \<open>control_plane_count\<close> addresses, the last octets counting up from \<open>ip_start\<close>;
  \<open>worker_ips\<close> has \<open>worker_count\<close> addresses, counting up from
  \<open>ip_start + control_plane_count\<close>; together they are one run of consecutive last
  octets from \<open>ip_start\<close>, no address occurs twice, none is in both lists, and
  \<open>total_nodes\<close> is the sum of the counts and the number of addresses.
\<close>

theorem ip_blocks_contiguous_disjoint:
  assumes "0 \<le> control_plane_count s" and "0 \<le> worker_count s"
  shows "int (length (control_plane_ips s)) = control_plane_count s \<and>
         int (length (worker_ips s)) = worker_count s \<and>
         control_plane_ips s =
           map (\<lambda>i. ip_prefix s @ str_int (ip_start s + int i))
             [0 ..< nat (control_plane_count s)] \<and>
         worker_ips s =
           map (\<lambda>i. ip_prefix s @ str_int (ip_start s + control_plane_count s + int i))
             [0 ..< nat (worker_count s)] \<and>
         control_plane_ips s @ worker_ips s =
           map (\<lambda>i. ip_prefix s @ str_int (ip_start s + int i))
             [0 ..< nat (control_plane_count s + worker_count s)] \<and>
         distinct (control_plane_ips s @ worker_ips s) \<and>
         set (control_plane_ips s) \<inter> set (worker_ips s) = {} \<and>
         total_nodes s = control_plane_count s + worker_count s \<and>
         total_nodes s = int (length (control_plane_ips s @ worker_ips s))"
proof -
  note c = all_ips_contiguous [OF assms, unfolded all_ips_def]
  have d: "distinct (control_plane_ips s @ worker_ips s)"
    unfolding c by (rule ips_distinct)
  then have i: "set (control_plane_ips s) \<inter> set (worker_ips s) = {}"
    by (simp only: distinct_append)
  have l1: "int (length (control_plane_ips s)) = control_plane_count s"
    unfolding control_plane_ips_eq using assms(1) by simp
  have l2: "int (length (worker_ips s)) = worker_count s"
    unfolding worker_ips_eq using assms(2) by simp
  have n: "total_nodes s = control_plane_count s + worker_count s"
    by (simp add: total_nodes_def)
  have t: "total_nodes s = int (length (control_plane_ips s @ worker_ips s))"
    unfolding n length_append of_nat_add l1 l2 ..
  show ?thesis
    by (intro conjI l1 l2 control_plane_ips_eq worker_ips_eq c d i n t)
qed

theorem ip_blocks_contiguous_disjoint_witness:
  "0 \<le> control_plane_count default_spec \<and> 0 \<le> worker_count default_spec \<and>
   control_plane_ips default_spec = [''10.40.19.201''] \<and>
   worker_ips default_spec = [''10.40.19.202'', ''10.40.19.203''] \<and>
   set (control_plane_ips default_spec) \<inter> set (worker_ips default_spec) = {} \<and>
   total_nodes default_spec = 3"
proof -
  have a: "0 \<le> control_plane_count default_spec" and b: "0 \<le> worker_count default_spec"
    by (simp_all add: default_spec_def)
  have c: "control_plane_count default_spec + worker_count default_spec = 3"
    by (simp add: default_spec_def)
  from ip_blocks_contiguous_disjoint [OF a b]
  have i: "set (control_plane_ips default_spec) \<inter> set (worker_ips default_spec) = {}"
    and t: "total_nodes default_spec = control_plane_count default_spec + worker_count default_spec"
    by blast+
  from t c have n: "total_nodes default_spec = 3" by (simp only:)
  show ?thesis by (intro conjI a b default_spec_ips i n)
qed

text \<open>
  C6. Whatever the text is, putting it in a fence (\<open>```\<close> or \<open>```json\<close>, with or without
  the closing fence) does not change what \<open>_extract_json_from_response\<close> returns:
  the same parsed object when the text holds one, the same exception when it does not.
\<close>

theorem fenced_reply_parses_alike:
  "extract_json_from_response py (fenced [] closing t) = extract_json_from_response py t \<and>
   extract_json_from_response py (fenced ''json'' closing t) = extract_json_from_response py t"
proof -
  have "brace_free []" "brace_free ''json''" by (simp_all add: brace_free_def)
  then show ?thesis by (simp only: extract_fenced simp_thms)
qed

theorem fenced_reply_parses_alike_witness:
  "extract_json_from_response py_ref (fenced ''json'' True reply_workers) =
     Inr (JObj [(''worker_count'', JInt 3)]) \<and>
   unfenced (fenced ''json'' True reply_workers) = reply_workers"
  using fenced_reply_parses_alike [of py_ref True reply_workers] reply_workers_extracted
    fenced_reply_workers_unfenced
  by (simp only: simp_thms)

text \<open>
  C8, as amended. \<open>parse_intent\<close> raises \<open>OllamaError\<close> (the spec's ServiceUnavailable)
  when the availability probe fails, and when the chat request, made with the probe
  passed, ends in \<open>URLError\<close>. It raises \<open>ValueError\<close> (the spec's MalformedResponse;
  \<open>JSONDecodeError\<close> is one) when the reply is a text with no span from a first \<open>{\<close> to a
  last \<open>}\<close> that \<open>json.loads\<close> reads. Neither is an equivalence. A spec that is
  returned is the resolution of the whole object found in the reply, and a failure
  returns no spec.
\<close>

theorem intent_resolution_failures:
  "(\<not> ollama_is_available py env \<longrightarrow> parse_intent py env = Inl OllamaError) \<and>
   (ollama_is_available py env \<and> prompt_ok env \<and> chat_response env = Inl URLError \<longrightarrow>
      parse_intent py env = Inl OllamaError) \<and>
   (ollama_is_available py env \<and> prompt_ok env \<and> ollama_chat py env = Inr (JStr reply) \<and>
    no_object py reply \<longrightarrow>
      (\<exists>e. parse_intent py env = Inl e \<and> is_ValueError e)) \<and>
   (\<forall>r. parse_intent py env = Inr r \<longrightarrow>
      (\<exists>reply. ollama_chat py env = Inr (JStr reply) \<and>
                extract_json_from_response py reply = Inr (llm_raw r) \<and>
                json_to_spec py (llm_raw r) = Inr (r_spec r))) \<and>
   (\<forall>e. parse_intent py env = Inl e \<longrightarrow> (\<forall>r. parse_intent py env \<noteq> Inr r))"
proof (intro conjI impI allI)
  assume "\<not> ollama_is_available py env"
  then show "parse_intent py env = Inl OllamaError" by (rule parse_intent_unavailable)
next
  assume a: "ollama_is_available py env \<and> prompt_ok env \<and> chat_response env = Inl URLError"
  then have "ollama_chat py env = Inl OllamaError"
    by (simp add: ollama_chat_def ollama_post_def bind_err_def)
  moreover from a have "prompt_ok env" by simp
  ultimately show "parse_intent py env = Inl OllamaError"
    unfolding parse_intent_def by (simp only: prompt_ok_bind) (simp add: bind_err_def)
next
  assume "ollama_is_available py env \<and> prompt_ok env \<and> ollama_chat py env = Inr (JStr reply) \<and>
    no_object py reply"
  then show "\<exists>e. parse_intent py env = Inl e \<and> is_ValueError e"
    using parse_intent_no_object by blast
next
  fix r assume "parse_intent py env = Inr r"
  then show "\<exists>reply. ollama_chat py env = Inr (JStr reply) \<and>
                extract_json_from_response py reply = Inr (llm_raw r) \<and>
                json_to_spec py (llm_raw r) = Inr (r_spec r)"
    by (rule parse_intent_resolved)
next
  fix e r assume "parse_intent py env = Inl e"
  then show "parse_intent py env \<noteq> Inr r" by simp
qed

theorem intent_resolution_failures_witness:
  "\<not> ollama_is_available py_ref env_down \<and> parse_intent py_ref env_down = Inl OllamaError \<and>
   ollama_is_available py_ref env_prose \<and> prompt_ok env_prose \<and>
   ollama_chat py_ref env_prose = Inr (JStr ''I cannot size this cluster.'') \<and>
   no_object py_ref ''I cannot size this cluster.'' \<and>
   parse_intent py_ref env_prose = Inl ValueError"
proof -
  have p: "prompt_ok env_prose" by (simp add: prompt_ok_def env_prose_def)
  have d: "parse_intent py_ref env_down = Inl OllamaError"
    using intent_resolution_failures [of py_ref env_down] env_available(1) by blast
  from intent_resolution_failures [of py_ref env_prose "''I cannot size this cluster.''"]
    env_available(2) p env_chat(1) prose_no_object
  obtain e where e: "parse_intent py_ref env_prose = Inl e" by blast
  have "extract_json_from_response py_ref ''I cannot size this cluster.'' = Inl ValueError"
    by (simp add: extract_json_from_response_span brace_span_def py_find_def Let_def)
  then have "parse_intent py_ref env_prose = Inl ValueError"
    using env_available(2) env_chat(1)
    by (simp add: parse_intent_def bind_err_def env_prose_def)
  with d p env_available(1,2) env_chat(1) prose_no_object show ?thesis by simp
qed

text \<open>
  The claim as stated fails in both of its equivalences. A reply that is exactly one
  object \<open>json.loads\<close> reads, \<open>{"worker_count": NaN}\<close>, makes the resolution fail
  with \<open>ValueError\<close>; and a backend that answers both requests, the chat request with a
  body that is not JSON, makes it fail with \<open>OllamaError\<close>.
\<close>

theorem intent_resolution_counterexample:
  "ollama_is_available py_ref env_nan \<and>
   ollama_chat py_ref env_nan = Inr (JStr reply_nan) \<and>
   extract_json_from_response py_ref reply_nan = Inr (JObj [(''worker_count'', JFloat NaN)]) \<and>
   \<not> no_object py_ref reply_nan \<and>
   parse_intent py_ref env_nan = Inl ValueError \<and>
   ollama_is_available py_ref env_html \<and>
   chat_response env_html = Inr ''<html>'' \<and>
   parse_intent py_ref env_html = Inl OllamaError"
proof -
  have "\<not> no_object py_ref reply_nan"
    using reply_nan_extracted unfolding extract_no_object by simp
  moreover have "chat_response env_html = Inr ''<html>''" by (simp add: env_html_def)
  ultimately show ?thesis
    using env_available(3,4) env_chat(2) reply_nan_extracted parse_intent_nan parse_intent_html
    by simp
qed

text \<open>
  C7. A run of the pipeline that is not a dry run returns at least one result. A result
  is marked failed exactly when a command of its stage did not exit with code 0: it
  exited with another code, was not found, or \<open>subprocess.run\<close> raised. The stages of the
  results are exactly the stages of the plan (image build unless skipped, infrastructure,
  configuration, add-ons when the spec has any) up to and including the first stage with
  such a command. So the stages of the results are, in order, the first stages of the
  plan; a result that is marked failed is the last one, every result before the last is a
  success and no later stage has a result; a run with no failure has a result for every
  stage of the plan; and no command of a stage without a result was run. With four stages
  planned and the second failing, the list has exactly two entries, the second marked
  failed.
\<close>

theorem pipeline_halts_at_failure:
  assumes "run_pipeline env spec skip_packer auto_approve False = (results, tr)"
  shows "results \<noteq> [] \<and>
         list_all (\<lambda>r. success r = stage_ok env auto_approve (stage r)) results \<and>
         map stage results = upto_failure (stage_ok env auto_approve) (planned skip_packer spec) \<and>
         take (length results) (planned skip_packer spec) = map stage results \<and>
         (\<forall>k < length results. \<not> success (results ! k) \<longrightarrow> length results = Suc k) \<and>
         list_all success (butlast results) \<and>
         (list_all success results \<longrightarrow> map stage results = planned skip_packer spec) \<and>
         trace_within (set (map stage results)) tr \<and>
         (length (planned skip_packer spec) = 4 \<and> 1 < length results \<and> \<not> success (results ! 1) \<longrightarrow>
            length results = 2 \<and> map stage results = [PACKER, TERRAFORM] \<and> success (results ! 0))"
proof -
  note n = pipeline_nonempty [OF assms] and b = pipeline_butlast [OF assms]
    and p = pipeline_prefix [OF assms] and t = pipeline_trace [OF assms]
  have l: "\<forall>k < length results. \<not> success (results ! k) \<longrightarrow> length results = Suc k"
    using failed_is_last [OF b] by blast
  have c: "list_all success results \<longrightarrow> map stage results = planned skip_packer spec"
    using pipeline_complete [OF assms] by blast
  have s: "length (planned skip_packer spec) = 4 \<and> 1 < length results \<and> \<not> success (results ! 1) \<longrightarrow>
            length results = 2 \<and> map stage results = [PACKER, TERRAFORM] \<and> success (results ! 0)"
  proof (intro impI, elim conjE)
    assume 4: "length (planned skip_packer spec) = 4" and 1: "1 < length results"
      and f: "\<not> success (results ! 1)"
    from failed_is_last [OF b 1 f] have len: "length results = 2" by simp
    then obtain x y where xy: "results = [x, y]"
      by (cases results; cases "tl results") auto
    from p have "map stage results = [PACKER, TERRAFORM]"
      by (simp add: planned_four [OF 4] len)
    moreover from b xy have "success (results ! 0)" by simp
    ultimately show "length results = 2 \<and> map stage results = [PACKER, TERRAFORM] \<and> success (results ! 0)"
      using len by simp
  qed
  note f = pipeline_flags [OF assms]
  show ?thesis by (intro conjI n f [THEN conjunct1] f [THEN conjunct2] p l b c t s)
qed

theorem pipeline_halts_at_failure_witness:
  "run_pipeline env_init_fails spec_with_addon False False False =
     ([\<lparr> stage = PACKER, success = True, duration_s = 0, message = CompletedIn 0 \<rparr>,
       \<lparr> stage = TERRAFORM, success = False, duration_s = 0, message = FailedExitCode 1 \<rparr>],
      [Executed PACKER [''packer'', ''build'', ''-force'', ''.''] ''packer'',
       Executed TERRAFORM [''terraform'', ''init''] ''terraform'']) \<and>
   planned False spec_with_addon = [PACKER, TERRAFORM, ANSIBLE, ADDONS] \<and>
   trace_within {PACKER, TERRAFORM}
     [Executed PACKER [''packer'', ''build'', ''-force'', ''.''] ''packer'',
      Executed TERRAFORM [''terraform'', ''init''] ''terraform''] \<and>
   upto_failure (stage_ok env_init_fails False) [PACKER, TERRAFORM, ANSIBLE, ADDONS] =
     [PACKER, TERRAFORM] \<and>
   stage_ok env_init_fails False PACKER \<and> \<not> stage_ok env_init_fails False TERRAFORM \<and>
   run_pipeline env_no_terraform spec_with_addon True False False =
     ([\<lparr> stage = TERRAFORM, success = False, duration_s = 0,
         message = CommandNotFound ''terraform'' \<rparr>],
      [Executed TERRAFORM [''terraform'', ''init''] ''terraform''])"
proof -
  have p: "planned False spec_with_addon = [PACKER, TERRAFORM, ANSIBLE, ADDONS]"
    by (simp add: planned_def spec_with_addon_def)
  note h = pipeline_halts_at_failure [OF init_fails_run]
  from h have w: "trace_within {PACKER, TERRAFORM}
     [Executed PACKER [''packer'', ''build'', ''-force'', ''.''] ''packer'',
      Executed TERRAFORM [''terraform'', ''init''] ''terraform'']"
    by (simp add: insert_commute)
  from h have u: "upto_failure (stage_ok env_init_fails False) [PACKER, TERRAFORM, ANSIBLE, ADDONS] =
     [PACKER, TERRAFORM]"
    unfolding p by simp
  have k: "stage_ok env_init_fails False PACKER" "\<not> stage_ok env_init_fails False TERRAFORM"
    by (simp_all add: exited_ok_def env_init_fails_def)
  from p init_fails_run w u k no_terraform_run show ?thesis by (simp only: simp_thms)
qed

text \<open>
  C9. \<open>discover\<close> raises nothing, whatever the three kinds of query return or raise: it
  returns a context for the configured node, whose \<open>resources\<close> are what the status
  query gave, or the zero-valued \<open>NodeResources()\<close> when that query raised; whose
  \<open>existing_vms\<close> are what the guest list gave, or the empty list when that query
  raised; whose \<open>used_ips\<close> are the addresses of these guests; and in which each guest
  has the addresses its agent reported when it is running and the agent answered, and
  none otherwise. The agents' answers change nothing else: two hosts that give the same
  guest list give the same guests, addresses apart.
\<close>

theorem discover_never_raises:
  "(\<exists>ctx. discover py fl api node = Inr ctx \<and>
      node_name ctx = node \<and>
      resources ctx =
        (case get_node_resources fl api node of Inl e \<Rightarrow> default_resources | Inr r \<Rightarrow> r) \<and>
      existing_vms ctx = (case get_vms py fl api node of Inl e \<Rightarrow> [] | Inr vms \<Rightarrow> vms) \<and>
      used_ips ctx = concat (map ips (existing_vms ctx)) \<and>
      list_all (guest_ips_ok py api node) (existing_vms ctx)) \<and>
   (api (''/nodes/'' @ node @ ''/qemu'') = api' (''/nodes/'' @ node @ ''/qemu'') \<longrightarrow>
      map_sum id (map no_ips) (get_vms py fl api node) =
      map_sum id (map no_ips) (get_vms py fl api' node))"
proof (intro conjI impI)
  have "list_all (guest_ips_ok py api node)
          (case get_vms py fl api node of Inl e \<Rightarrow> [] | Inr vms \<Rightarrow> vms)"
    using get_vms_ips by (cases "get_vms py fl api node") auto
  then show "\<exists>ctx. discover py fl api node = Inr ctx \<and>
      node_name ctx = node \<and>
      resources ctx =
        (case get_node_resources fl api node of Inl e \<Rightarrow> default_resources | Inr r \<Rightarrow> r) \<and>
      existing_vms ctx = (case get_vms py fl api node of Inl e \<Rightarrow> [] | Inr vms \<Rightarrow> vms) \<and>
      used_ips ctx = concat (map ips (existing_vms ctx)) \<and>
      list_all (guest_ips_ok py api node) (existing_vms ctx)"
    by (simp add: discover_eq)
next
  assume "api (''/nodes/'' @ node @ ''/qemu'') = api' (''/nodes/'' @ node @ ''/qemu'')"
  then show "map_sum id (map no_ips) (get_vms py fl api node) =
      map_sum id (map no_ips) (get_vms py fl api' node)"
    by (rule get_vms_no_ips)
qed

theorem discover_never_raises_witness:
  "discover py_ref float_ops_ref api_agent_down ''pve1'' =
     Inr \<lparr> node_name = ''pve1'', resources = default_resources,
           existing_vms = [guest_101, guest_102], used_ips = [] \<rparr> \<and>
   api_agent_up (''/nodes/'' @ ''pve1'' @ ''/qemu'') = api_agent_down (''/nodes/'' @ ''pve1'' @ ''/qemu'') \<and>
   get_vms py_ref float_ops_ref api_agent_up ''pve1'' =
     Inr [guest_101 \<lparr> ips := [''10.40.19.201''] \<rparr>, guest_102] \<and>
   map_sum id (map no_ips) (get_vms py_ref float_ops_ref api_agent_up ''pve1'') =
     map_sum id (map no_ips) (get_vms py_ref float_ops_ref api_agent_down ''pve1'')"
proof -
  have a: "api_agent_up (''/nodes/'' @ ''pve1'' @ ''/qemu'') =
           api_agent_down (''/nodes/'' @ ''pve1'' @ ''/qemu'')"
    by (simp add: api_agent_up_def api_agent_down_def)
  from discover_never_raises [of py_ref float_ops_ref api_agent_up "''pve1''" api_agent_down] a
  have "map_sum id (map no_ips) (get_vms py_ref float_ops_ref api_agent_up ''pve1'') =
     map_sum id (map no_ips) (get_vms py_ref float_ops_ref api_agent_down ''pve1'')"
    by blast
  then show ?thesis
    by (intro conjI discover_agent_down a get_vms_agent_up)
qed

end
